theory Spec2Isabelle
  imports Complex_Main "HOL-Library.AList"
begin

section \<open>JavaScript values\<close>

text \<open>
  The values the lead routes handle: what \<^verbatim>\<open>JSON.parse\<close> returns for the
  \<^verbatim>\<open>filters\<close> query parameter, what a property read returns (\<^verbatim>\<open>undefined\<close>
  for a missing property), and what is bound to a \<^verbatim>\<open>?\<close> placeholder.
  An object is the list of its own properties; a read finds the first pair with the
  key. A number of a filter document is \<open>JNum n\<close> when it is an integer (of less than
  22 digits, which JavaScript prints in full), and otherwise \<open>JDec t\<close>, where \<open>t\<close> is
  the text JavaScript prints for it (\<^verbatim>\<open>99.5\<close>, \<^verbatim>\<open>1e+21\<close>): the routes never calculate
  with a number of a filter document, they test it for zero, print it into a \<^verbatim>\<open>LIKE\<close>
  pattern or bind it, and a number that is not an integer is not zero. The numbers the
  list route calculates itself (page, limit, offset) are in section \<open>The lead routes\<close>.
\<close>

datatype jsval =
    JUndefined
  | JNull
  | JBool bool
  | JNum int
  | JDec string
  | JStr string
  | JArr "jsval list"
  | JObj "(string \<times> jsval) list"

text \<open>Truthiness, as \<^verbatim>\<open>if (x)\<close> and \<^verbatim>\<open>!x\<close> and \<^verbatim>\<open>x ? a : b\<close> test it.\<close>

fun truthy :: "jsval \<Rightarrow> bool" where
  "truthy JUndefined = False"
| "truthy JNull = False"
| "truthy (JBool b) = b"
| "truthy (JNum n) = (n \<noteq> 0)"
| "truthy (JDec t) = True"
| "truthy (JStr s) = (s \<noteq> [])"
| "truthy (JArr xs) = True"
| "truthy (JObj kvs) = True"

text \<open>
  A property read \<^verbatim>\<open>x.name\<close>. The routes read only the names of the filter fields,
  \<^verbatim>\<open>operator\<close> and \<^verbatim>\<open>value\<close>, none of which a string, number, boolean or array
  has, so on those the read gives \<^verbatim>\<open>undefined\<close>. On \<^verbatim>\<open>null\<close> and \<^verbatim>\<open>undefined\<close>
  JavaScript throws; every read in \<^verbatim>\<open>buildWhereClause\<close> is behind a truthiness test
  of the value read from, so that case is never reached there.
\<close>

fun get :: "jsval \<Rightarrow> string \<Rightarrow> jsval" where
  "get (JObj kvs) k = (case map_of kvs k of Some v \<Rightarrow> v | None \<Rightarrow> JUndefined)"
| "get _ k = JUndefined"

fun isArray :: "jsval \<Rightarrow> bool" where
  "isArray (JArr xs) = True"
| "isArray _ = False"

text \<open>\<^verbatim>\<open>a[i]\<close> on an array: \<^verbatim>\<open>undefined\<close> past the end.\<close>

fun index :: "jsval \<Rightarrow> nat \<Rightarrow> jsval" where
  "index (JArr xs) i = (if i < length xs then xs ! i else JUndefined)"
| "index _ i = JUndefined"

fun elements :: "jsval \<Rightarrow> jsval list" where
  "elements (JArr xs) = xs"
| "elements _ = []"

subsection \<open>String conversion in a template literal\<close>

fun digits :: "nat \<Rightarrow> string" where
  "digits n = (if n < 10 then [char_of (48 + n)] else digits (n div 10) @ [char_of (48 + n mod 10)])"

definition showInt :: "int \<Rightarrow> string" where
  "showInt i = (if i < 0 then CHR ''-'' # digits (nat (- i)) else digits (nat i))"

fun join :: "string \<Rightarrow> string list \<Rightarrow> string" where
  "join sep [] = []"
| "join sep [s] = s"
| "join sep (s # t # ss) = s @ sep @ join sep (t # ss)"

text \<open>
  \<^verbatim>\<open>`${v}`\<close>, \<open>None\<close> where it throws a TypeError. An array is its elements joined by
  commas, \<^verbatim>\<open>null\<close> and \<^verbatim>\<open>undefined\<close> elements as the empty string, and throws when
  an element does. An object of \<^verbatim>\<open>JSON.parse\<close> prints through \<^verbatim>\<open>Object.prototype.toString\<close>
  as \<^verbatim>\<open>[object Object]\<close>, unless it has a property \<^verbatim>\<open>toString\<close> of its own: that
  property is not a function, and neither an own \<^verbatim>\<open>valueOf\<close> nor the inherited one
  gives a primitive, so the conversion throws.
\<close>

fun ToString :: "jsval \<Rightarrow> string option" where
  "ToString JUndefined = Some ''undefined''"
| "ToString JNull = Some ''null''"
| "ToString (JBool b) = Some (if b then ''true'' else ''false'')"
| "ToString (JNum n) = Some (showInt n)"
| "ToString (JDec t) = Some t"
| "ToString (JStr s) = Some s"
| "ToString (JArr xs) =
     map_option (join '','')
       (those (map (\<lambda>x. if x = JNull \<or> x = JUndefined then Some [] else ToString x) xs))"
| "ToString (JObj kvs) =
     (if map_of kvs ''toString'' = None then Some ''[object Object]'' else None)"

section \<open>The filter predicate compiler\<close>

text \<open>
  \<^verbatim>\<open>buildWhereClause(filters, userId)\<close> threads two variables, the clause text
  \<^verbatim>\<open>whereClause\<close> and the bound values \<^verbatim>\<open>params\<close>, through ten blocks, one per
  filter field. A block is a function on that pair. The three string blocks (email,
  company, city) are one text with the column name changed, and so are the two enum
  blocks (status, source), the two number blocks (score, lead_value) and the two date
  blocks (created_at, last_activity_at); each kind is written once, with the column
  name and the value \<^verbatim>\<open>filters[column]\<close> as arguments. The only statement of the
  function that can throw is the template literal of a \<^verbatim>\<open>contains\<close>; a string block
  and the function return \<open>None\<close> where it does.
\<close>

type_synonym acc = "string \<times> jsval list"

definition stringField :: "string \<Rightarrow> jsval \<Rightarrow> acc \<Rightarrow> acc option" where
  "stringField col f a =
     (case a of (whereClause, params) \<Rightarrow>
        if truthy f then
          if get f ''operator'' = JStr ''equals'' then
            Some (whereClause @ '' AND '' @ col @ '' = ?'', params @ [get f ''value''])
          else if get f ''operator'' = JStr ''contains'' then
            (case ToString (get f ''value'') of
               None \<Rightarrow> None
             | Some printed \<Rightarrow>
                 Some (whereClause @ '' AND '' @ col @ '' LIKE ?'',
                       params @ [JStr (''%'' @ printed @ ''%'')]))
          else Some a
        else Some a)"

definition enumField :: "string \<Rightarrow> jsval \<Rightarrow> acc \<Rightarrow> acc" where
  "enumField col f a =
     (case a of (whereClause, params) \<Rightarrow>
        if truthy f then
          if get f ''operator'' = JStr ''equals'' then
            (whereClause @ '' AND '' @ col @ '' = ?'', params @ [get f ''value''])
          else if get f ''operator'' = JStr ''in'' \<and> isArray (get f ''value'') then
            (let placeholders = join '','' (map (\<lambda>_. ''?'') (elements (get f ''value'')))
             in (whereClause @ '' AND '' @ col @ '' IN ('' @ placeholders @ '')'',
                 params @ elements (get f ''value'')))
          else a
        else a)"

definition numberField :: "string \<Rightarrow> jsval \<Rightarrow> acc \<Rightarrow> acc" where
  "numberField col f a =
     (case a of (whereClause, params) \<Rightarrow>
        if truthy f then
          if get f ''operator'' = JStr ''equals'' then
            (whereClause @ '' AND '' @ col @ '' = ?'', params @ [get f ''value''])
          else if get f ''operator'' = JStr ''gt'' then
            (whereClause @ '' AND '' @ col @ '' > ?'', params @ [get f ''value''])
          else if get f ''operator'' = JStr ''lt'' then
            (whereClause @ '' AND '' @ col @ '' < ?'', params @ [get f ''value''])
          else if get f ''operator'' = JStr ''between'' \<and> isArray (get f ''value'') then
            (whereClause @ '' AND '' @ col @ '' BETWEEN ? AND ?'',
             params @ [index (get f ''value'') 0, index (get f ''value'') 1])
          else a
        else a)"

definition dateField :: "string \<Rightarrow> jsval \<Rightarrow> acc \<Rightarrow> acc" where
  "dateField col f a =
     (case a of (whereClause, params) \<Rightarrow>
        if truthy f then
          if get f ''operator'' = JStr ''on'' then
            (whereClause @ '' AND DATE('' @ col @ '') = DATE(?)'', params @ [get f ''value''])
          else if get f ''operator'' = JStr ''before'' then
            (whereClause @ '' AND '' @ col @ '' < ?'', params @ [get f ''value''])
          else if get f ''operator'' = JStr ''after'' then
            (whereClause @ '' AND '' @ col @ '' > ?'', params @ [get f ''value''])
          else if get f ''operator'' = JStr ''between'' \<and> isArray (get f ''value'') then
            (whereClause @ '' AND '' @ col @ '' BETWEEN ? AND ?'',
             params @ [index (get f ''value'') 0, index (get f ''value'') 1])
          else a
        else a)"

definition booleanField :: "jsval \<Rightarrow> acc \<Rightarrow> acc" where
  "booleanField q a =
     (case a of (whereClause, params) \<Rightarrow>
        if q \<noteq> JUndefined then
          (whereClause @ '' AND is_qualified = ?'', params @ [JNum (if truthy q then 1 else 0)])
        else a)"

definition buildWhereClause :: "jsval \<Rightarrow> jsval \<Rightarrow> acc option" where
  "buildWhereClause filters userId =
     (let a0 = (''WHERE user_id = ?'', [userId]) in
      if \<not> truthy filters then Some a0
      else
        (case stringField ''email'' (get filters ''email'') a0 of
           None \<Rightarrow> None
         | Some a1 \<Rightarrow>
        (case stringField ''company'' (get filters ''company'') a1 of
           None \<Rightarrow> None
         | Some a2 \<Rightarrow>
        (case stringField ''city'' (get filters ''city'') a2 of
           None \<Rightarrow> None
         | Some a3 \<Rightarrow>
             let a4 = enumField ''status'' (get filters ''status'') a3;
                 a5 = enumField ''source'' (get filters ''source'') a4;
                 a6 = numberField ''score'' (get filters ''score'') a5;
                 a7 = numberField ''lead_value'' (get filters ''lead_value'') a6;
                 a8 = dateField ''created_at'' (get filters ''created_at'') a7;
                 a9 = dateField ''last_activity_at'' (get filters ''last_activity_at'') a8
             in Some (booleanField (get filters ''is_qualified'') a9)))))"

subsection \<open>The clauses, one by one\<close>

text \<open>
  The same pass read as a list of conditions instead of a text: each branch that
  appends a fragment contributes one condition, made of the column and the values the
  branch binds. \<open>sql\<close> is the fragment of a condition and \<open>binds\<close> its bound values,
  in placeholder order. \<open>throws\<close> says when the pass throws: when the value of a
  \<^verbatim>\<open>contains\<close> on one of the three string fields does not print. Lemma
  \<open>buildWhereClause_conds\<close> below shows that \<^verbatim>\<open>buildWhereClause\<close> returns exactly when
  \<open>throws\<close> is false, and that the text and the bound values it returns are exactly these
  conditions, rendered in order after the tenant condition. (Where the pass throws
  there is no condition to speak of; there the pattern of a \<^verbatim>\<open>contains\<close> is written
  \<^verbatim>\<open>%%\<close>.)
\<close>

datatype cond =
    Equals string jsval
  | Like string jsval
  | InList string "jsval list"
  | Greater string jsval
  | Less string jsval
  | Between string jsval jsval
  | OnDate string jsval

fun sql :: "cond \<Rightarrow> string" where
  "sql (Equals col v) = col @ '' = ?''"
| "sql (Like col v) = col @ '' LIKE ?''"
| "sql (InList col vs) = col @ '' IN ('' @ join '','' (map (\<lambda>_. ''?'') vs) @ '')''"
| "sql (Greater col v) = col @ '' > ?''"
| "sql (Less col v) = col @ '' < ?''"
| "sql (Between col lo hi) = col @ '' BETWEEN ? AND ?''"
| "sql (OnDate col v) = ''DATE('' @ col @ '') = DATE(?)''"

fun binds :: "cond \<Rightarrow> jsval list" where
  "binds (Equals col v) = [v]"
| "binds (Like col v) = [v]"
| "binds (InList col vs) = vs"
| "binds (Greater col v) = [v]"
| "binds (Less col v) = [v]"
| "binds (Between col lo hi) = [lo, hi]"
| "binds (OnDate col v) = [v]"

definition addConds :: "acc \<Rightarrow> cond list \<Rightarrow> acc" where
  "addConds a cs =
     (fst a @ concat (map (\<lambda>c. '' AND '' @ sql c) cs), snd a @ concat (map binds cs))"

definition printed :: "jsval \<Rightarrow> string" where
  "printed v = (case ToString v of Some t \<Rightarrow> t | None \<Rightarrow> [])"

definition stringConds :: "string \<Rightarrow> jsval \<Rightarrow> cond list" where
  "stringConds col f =
     (if truthy f then
        if get f ''operator'' = JStr ''equals'' then [Equals col (get f ''value'')]
        else if get f ''operator'' = JStr ''contains'' then
          [Like col (JStr (''%'' @ printed (get f ''value'') @ ''%''))]
        else []
      else [])"

definition containsThrows :: "jsval \<Rightarrow> bool" where
  "containsThrows f =
     (truthy f \<and> get f ''operator'' = JStr ''contains'' \<and> ToString (get f ''value'') = None)"

definition throws :: "jsval \<Rightarrow> bool" where
  "throws filters =
     (truthy filters
      \<and> (containsThrows (get filters ''email'') \<or> containsThrows (get filters ''company'')
         \<or> containsThrows (get filters ''city'')))"

definition enumConds :: "string \<Rightarrow> jsval \<Rightarrow> cond list" where
  "enumConds col f =
     (if truthy f then
        if get f ''operator'' = JStr ''equals'' then [Equals col (get f ''value'')]
        else if get f ''operator'' = JStr ''in'' \<and> isArray (get f ''value'') then
          [InList col (elements (get f ''value''))]
        else []
      else [])"

definition numberConds :: "string \<Rightarrow> jsval \<Rightarrow> cond list" where
  "numberConds col f =
     (if truthy f then
        if get f ''operator'' = JStr ''equals'' then [Equals col (get f ''value'')]
        else if get f ''operator'' = JStr ''gt'' then [Greater col (get f ''value'')]
        else if get f ''operator'' = JStr ''lt'' then [Less col (get f ''value'')]
        else if get f ''operator'' = JStr ''between'' \<and> isArray (get f ''value'') then
          [Between col (index (get f ''value'') 0) (index (get f ''value'') 1)]
        else []
      else [])"

definition dateConds :: "string \<Rightarrow> jsval \<Rightarrow> cond list" where
  "dateConds col f =
     (if truthy f then
        if get f ''operator'' = JStr ''on'' then [OnDate col (get f ''value'')]
        else if get f ''operator'' = JStr ''before'' then [Less col (get f ''value'')]
        else if get f ''operator'' = JStr ''after'' then [Greater col (get f ''value'')]
        else if get f ''operator'' = JStr ''between'' \<and> isArray (get f ''value'') then
          [Between col (index (get f ''value'') 0) (index (get f ''value'') 1)]
        else []
      else [])"

definition booleanConds :: "jsval \<Rightarrow> cond list" where
  "booleanConds q =
     (if q \<noteq> JUndefined then [Equals ''is_qualified'' (JNum (if truthy q then 1 else 0))]
      else [])"

definition filterConds :: "jsval \<Rightarrow> cond list" where
  "filterConds filters =
     (if \<not> truthy filters then []
      else stringConds ''email'' (get filters ''email'')
         @ stringConds ''company'' (get filters ''company'')
         @ stringConds ''city'' (get filters ''city'')
         @ enumConds ''status'' (get filters ''status'')
         @ enumConds ''source'' (get filters ''source'')
         @ numberConds ''score'' (get filters ''score'')
         @ numberConds ''lead_value'' (get filters ''lead_value'')
         @ dateConds ''created_at'' (get filters ''created_at'')
         @ dateConds ''last_activity_at'' (get filters ''last_activity_at'')
         @ booleanConds (get filters ''is_qualified''))"

section \<open>The record store\<close>

text \<open>
  A row of the \<^verbatim>\<open>leads\<close> table of \<^verbatim>\<open>createLeadsTable\<close>: the key columns
  \<^verbatim>\<open>id INTEGER PRIMARY KEY AUTOINCREMENT\<close>, \<^verbatim>\<open>user_id INTEGER NOT NULL\<close> and
  \<^verbatim>\<open>email TEXT NOT NULL\<close> with their types, the other columns by name as SQL values
  (\<open>JNull\<close>, \<open>JNum\<close>, \<open>JDec\<close>, \<open>JStr\<close>). The store is the rows in rowid order and the
  AUTOINCREMENT counter.
\<close>

record lead =
  lead_id :: int
  user_id :: int
  email :: string
  attrs :: "string \<Rightarrow> jsval"

record store =
  leads :: "lead list"
  seq :: int

definition column :: "lead \<Rightarrow> string \<Rightarrow> jsval" where
  "column r c =
     (if c = ''id'' then JNum (lead_id r)
      else if c = ''user_id'' then JNum (user_id r)
      else if c = ''email'' then JStr (email r)
      else attrs r c)"

text \<open>
  What SQLite does and the repository does not say is a parameter: comparisons between
  values of different storage classes and the ordering of text (\<open>mixed_eq\<close>,
  \<open>mixed_lt\<close>), \<^verbatim>\<open>LIKE\<close>, \<^verbatim>\<open>DATE()\<close>, \<^verbatim>\<open>CURRENT_TIMESTAMP\<close>, the value a column
  stores for a bound JavaScript value (\<open>stored\<close>), and the column constraints of the
  table other than \<^verbatim>\<open>UNIQUE(user_id, email)\<close> (\<open>admissible\<close>: NOT NULL, CHECK and the
  foreign key). Two integers and two texts compare as themselves.
\<close>

record engine =
  mixed_eq :: "jsval \<Rightarrow> jsval \<Rightarrow> bool"
  mixed_lt :: "jsval \<Rightarrow> jsval \<Rightarrow> bool"
  like :: "jsval \<Rightarrow> jsval \<Rightarrow> bool"
  date :: "jsval \<Rightarrow> jsval"
  current_timestamp :: jsval
  stored :: "string \<Rightarrow> jsval \<Rightarrow> jsval"
  admissible :: "lead \<Rightarrow> bool"

fun sql_eq :: "engine \<Rightarrow> jsval \<Rightarrow> jsval \<Rightarrow> bool" where
  "sql_eq e (JNum a) (JNum b) = (a = b)"
| "sql_eq e (JStr s) (JStr t) = (s = t)"
| "sql_eq e x v = mixed_eq e x v"

fun sql_lt :: "engine \<Rightarrow> jsval \<Rightarrow> jsval \<Rightarrow> bool" where
  "sql_lt e (JNum a) (JNum b) = (a < b)"
| "sql_lt e x v = mixed_lt e x v"

definition sql_le :: "engine \<Rightarrow> jsval \<Rightarrow> jsval \<Rightarrow> bool" where
  "sql_le e x v = (sql_lt e x v \<or> sql_eq e x v)"

text \<open>The truth of one condition on one row; \<^verbatim>\<open>x BETWEEN lo AND hi\<close> is
  \<^verbatim>\<open>x >= lo AND x <= hi\<close>.\<close>

fun holds :: "engine \<Rightarrow> lead \<Rightarrow> cond \<Rightarrow> bool" where
  "holds e r (Equals col v) = sql_eq e (column r col) v"
| "holds e r (Like col v) = like e (column r col) v"
| "holds e r (InList col vs) = list_ex (\<lambda>v. sql_eq e (column r col) v) vs"
| "holds e r (Greater col v) = sql_lt e v (column r col)"
| "holds e r (Less col v) = sql_lt e (column r col) v"
| "holds e r (Between col lo hi) = (sql_le e lo (column r col) \<and> sql_le e (column r col) hi)"
| "holds e r (OnDate col v) = sql_eq e (date e (column r col)) (date e v)"

text \<open>The rows a \<^verbatim>\<open>WHERE c1 AND ... AND cn\<close> selects.\<close>

definition selectWhere :: "engine \<Rightarrow> cond list \<Rightarrow> lead list \<Rightarrow> lead list" where
  "selectWhere e cs rows = filter (\<lambda>r. list_all (holds e r) cs) rows"

text \<open>\<^verbatim>\<open>ORDER BY created_at DESC\<close>: rows with equal keys stay in store order.\<close>

fun insertDesc :: "engine \<Rightarrow> lead \<Rightarrow> lead list \<Rightarrow> lead list" where
  "insertDesc e x [] = [x]"
| "insertDesc e x (y # ys) =
     (if sql_lt e (column y ''created_at'') (column x ''created_at'') then x # y # ys
      else y # insertDesc e x ys)"

definition orderByCreatedDesc :: "engine \<Rightarrow> lead list \<Rightarrow> lead list" where
  "orderByCreatedDesc e rows = foldl (\<lambda>sorted r. insertDesc e r sorted) [] rows"

text \<open>\<^verbatim>\<open>LIMIT ? OFFSET ?\<close>; a negative limit is no limit, a negative offset is zero.\<close>

definition limitOffset :: "int \<Rightarrow> int \<Rightarrow> lead list \<Rightarrow> lead list" where
  "limitOffset n k rows =
     (let rest = drop (nat k) rows in if n < 0 then rest else take (nat n) rest)"

subsection \<open>Reading a statement\<close>

text \<open>
  The store is handed a text and a list of bound values, and answers by what the text
  says. It reads the \<^verbatim>\<open>WHERE\<close> clauses that \<^verbatim>\<open>buildWhereClause\<close> can produce: conditions
  joined by \<^verbatim>\<open> AND \<close>, each on a column name, each \<^verbatim>\<open>?\<close> taking the next bound value
  from left to right. A text it cannot read, or one with too few bound values, is an
  error of the statement (\<open>None\<close>), which the routes answer with a 500.
\<close>

definition identChar :: "char \<Rightarrow> bool" where
  "identChar c = (c \<in> set ''abcdefghijklmnopqrstuvwxyz_'')"

fun stripPrefix :: "string \<Rightarrow> string \<Rightarrow> string option" where
  "stripPrefix [] s = Some s"
| "stripPrefix (p # ps) [] = None"
| "stripPrefix (p # ps) (c # cs) = (if p = c then stripPrefix ps cs else None)"

text \<open>The placeholders of an \<^verbatim>\<open>IN (...)\<close> list, after the first and from the first:
  their number and the text after the closing parenthesis.\<close>

fun readMore :: "string \<Rightarrow> (nat \<times> string) option" where
  "readMore [] = None"
| "readMore [c] = (if c = CHR '')'' then Some (0, []) else None)"
| "readMore (c # d # cs) =
     (if c = CHR '')'' then Some (0, d # cs)
      else if c = CHR '','' \<and> d = CHR ''?'' then
        (case readMore cs of Some (n, rest) \<Rightarrow> Some (Suc n, rest) | None \<Rightarrow> None)
      else None)"

fun readList :: "string \<Rightarrow> (nat \<times> string) option" where
  "readList [] = None"
| "readList (c # cs) =
     (if c = CHR '')'' then Some (0, cs)
      else if c = CHR ''?'' then
        (case readMore cs of Some (n, rest) \<Rightarrow> Some (Suc n, rest) | None \<Rightarrow> None)
      else None)"

definition takeParams :: "nat \<Rightarrow> jsval list \<Rightarrow> (jsval list \<times> jsval list) option" where
  "takeParams n ps = (if n \<le> length ps then Some (take n ps, drop n ps) else None)"

text \<open>One condition: the condition read, the text after it and the bound values left.\<close>

definition readCond :: "string \<Rightarrow> jsval list \<Rightarrow> (cond \<times> string \<times> jsval list) option" where
  "readCond s ps =
     (case stripPrefix ''DATE('' s of
        Some r \<Rightarrow>
          (case (stripPrefix '') = DATE(?)'' (dropWhile identChar r), takeParams 1 ps) of
             (Some rest, Some ([v], ps')) \<Rightarrow>
               if takeWhile identChar r \<noteq> [] then Some (OnDate (takeWhile identChar r) v, rest, ps')
               else None
           | _ \<Rightarrow> None)
      | None \<Rightarrow>
          let col = takeWhile identChar s; r = dropWhile identChar s in
          if col = [] then None
          else
            (case (stripPrefix '' = ?'' r, takeParams 1 ps) of
               (Some rest, Some ([v], ps')) \<Rightarrow> Some (Equals col v, rest, ps')
             | (Some rest, _) \<Rightarrow> None
             | (None, _) \<Rightarrow>
            (case (stripPrefix '' LIKE ?'' r, takeParams 1 ps) of
               (Some rest, Some ([v], ps')) \<Rightarrow> Some (Like col v, rest, ps')
             | (Some rest, _) \<Rightarrow> None
             | (None, _) \<Rightarrow>
            (case (stripPrefix '' > ?'' r, takeParams 1 ps) of
               (Some rest, Some ([v], ps')) \<Rightarrow> Some (Greater col v, rest, ps')
             | (Some rest, _) \<Rightarrow> None
             | (None, _) \<Rightarrow>
            (case (stripPrefix '' < ?'' r, takeParams 1 ps) of
               (Some rest, Some ([v], ps')) \<Rightarrow> Some (Less col v, rest, ps')
             | (Some rest, _) \<Rightarrow> None
             | (None, _) \<Rightarrow>
            (case (stripPrefix '' BETWEEN ? AND ?'' r, takeParams 2 ps) of
               (Some rest, Some ([lo, hi], ps')) \<Rightarrow> Some (Between col lo hi, rest, ps')
             | (Some rest, _) \<Rightarrow> None
             | (None, _) \<Rightarrow>
            (case stripPrefix '' IN ('' r of
               Some r' \<Rightarrow>
                 (case readList r' of
                    Some (n, rest) \<Rightarrow>
                      (case takeParams n ps of
                         Some (vs, ps') \<Rightarrow> Some (InList col vs, rest, ps')
                       | None \<Rightarrow> None)
                  | None \<Rightarrow> None)
             | None \<Rightarrow> None)))))))"

text \<open>Conditions joined by \<^verbatim>\<open> AND \<close>; \<open>fuel\<close> bounds their number (the length of the
  text is enough, lemma \<open>readWhere_render\<close>).\<close>

fun readConds :: "nat \<Rightarrow> string \<Rightarrow> jsval list \<Rightarrow> (cond list \<times> string \<times> jsval list) option" where
  "readConds 0 s ps = None"
| "readConds (Suc fuel) s ps =
     (case readCond s ps of
        None \<Rightarrow> None
      | Some (c, rest, ps') \<Rightarrow>
          (case stripPrefix '' AND '' rest of
             None \<Rightarrow> Some ([c], rest, ps')
           | Some after \<Rightarrow>
               (case readConds fuel after ps' of
                  None \<Rightarrow> None
                | Some (cs, rest', ps'') \<Rightarrow> Some (c # cs, rest', ps''))))"

definition readWhere :: "string \<Rightarrow> jsval list \<Rightarrow> (cond list \<times> string \<times> jsval list) option" where
  "readWhere s ps =
     (case stripPrefix ''WHERE '' s of
        None \<Rightarrow> None
      | Some r \<Rightarrow> readConds (length r) r ps)"


text \<open>
  The two statements of the list route: the count has nothing after the clause and
  no bound value left; the row query has the ordering, and the limit and the offset as
  its last two bound values. A limit or an offset has to be an integer of 64 bits. The
  driver binds a Number that is not a 32-bit integer as a floating-point value, and
  SQLite takes such a value for an integer when it is one strictly between \<open>-2^63\<close>
  and \<open>2^63\<close>; anything else (a larger value, an infinity, \<^verbatim>\<open>NaN\<close>, a fraction, a
  text, \<^verbatim>\<open>NULL\<close>) is the error \<^verbatim>\<open>datatype mismatch\<close> of the statement.
\<close>

definition int64 :: "int \<Rightarrow> bool" where
  "int64 x = (- (2 ^ 63) < x \<and> x < 2 ^ 63)"

definition countStatement :: "string \<Rightarrow> jsval list \<Rightarrow> cond list option" where
  "countStatement q ps =
     (case stripPrefix ''SELECT COUNT(*) as total FROM leads '' q of
        None \<Rightarrow> None
      | Some w \<Rightarrow>
          (case readWhere w ps of
             Some (cs, rest, ps') \<Rightarrow> if rest = [] \<and> ps' = [] then Some cs else None
           | None \<Rightarrow> None))"

definition rowStatement :: "string \<Rightarrow> jsval list \<Rightarrow> (cond list \<times> int \<times> int) option" where
  "rowStatement q ps =
     (case stripPrefix ''SELECT * FROM leads '' q of
        None \<Rightarrow> None
      | Some w \<Rightarrow>
          (case readWhere w ps of
             Some (cs, rest, [JNum n, JNum k]) \<Rightarrow>
               if rest = '' ORDER BY created_at DESC LIMIT ? OFFSET ?'' \<and> int64 n \<and> int64 k
               then Some (cs, n, k)
               else None
           | _ \<Rightarrow> None))"

text \<open>\<^verbatim>\<open>db.get\<close> of the count statement (the \<^verbatim>\<open>total\<close> of its one row) and \<^verbatim>\<open>db.all\<close> of
  the row query.\<close>

definition dbGetTotal :: "engine \<Rightarrow> store \<Rightarrow> string \<times> jsval list \<Rightarrow> int option" where
  "dbGetTotal e s q =
     (case countStatement (fst q) (snd q) of
        None \<Rightarrow> None
      | Some cs \<Rightarrow> Some (int (length (selectWhere e cs (leads s)))))"

definition dbAll :: "engine \<Rightarrow> store \<Rightarrow> string \<times> jsval list \<Rightarrow> lead list option" where
  "dbAll e s q =
     (case rowStatement (fst q) (snd q) of
        None \<Rightarrow> None
      | Some (cs, n, k) \<Rightarrow>
          Some (limitOffset n k (orderByCreatedDesc e (selectWhere e cs (leads s)))))"

section \<open>The lead routes\<close>

text \<open>
  A request as the route handler receives it, after \<^verbatim>\<open>authenticateToken\<close> and the
  express-validator chain have run. \<open>userId\<close> is \<^verbatim>\<open>req.user.userId\<close>, the integer
  \<^verbatim>\<open>users.id\<close> the token was issued for. A query parameter that should be an integer
  is missing, or not an integer, or an integer. \<open>idParam\<close> is \<^verbatim>\<open>req.params.id\<close>, as the
  integer the path segment denotes (a segment that denotes none matches no row, as an
  id that no row has). \<open>errorsEmpty\<close> is \<^verbatim>\<open>validationResult(req).isEmpty()\<close> for the
  \<^verbatim>\<open>validateLead\<close> chain, \<open>bodyEmail\<close> and \<open>body\<close> are the fields of \<^verbatim>\<open>req.body\<close>
  (\<open>JUndefined\<close> where absent), \<open>nowIso\<close> is \<^verbatim>\<open>new Date().toISOString()\<close>.
\<close>

datatype qint = Missing | Malformed | Given int

text \<open>
  A Number the list route computes from \<^verbatim>\<open>page\<close> and \<^verbatim>\<open>limit\<close>: an IEEE double. The
  route only makes integers, the infinities and \<^verbatim>\<open>NaN\<close> (\<open>Finite 0\<close> is both zeros,
  which are bound and printed alike). \<open>bits n\<close> is the length of \<open>n\<close> in binary, and
  \<open>toDouble n\<close> is the double nearest to the integer \<open>n\<close>, ties to the even
  significand: \<open>n\<close> itself up to 53 bits, beyond that a multiple of
  \<open>2 ^ (bits n - 53)\<close>, and an infinity from \<open>2^1024\<close>. \<^verbatim>\<open>x - 1\<close> and \<^verbatim>\<open>x * y\<close> are the
  exact result, rounded the same way.
\<close>

datatype jsnum = Finite int | PosInf | NegInf | NaN

function bits :: "int \<Rightarrow> nat" where
  "bits n = (if n \<le> 0 then 0 else Suc (bits (n div 2)))"
  by pat_completeness auto

termination
  by (relation "measure nat") auto

declare bits.simps [simp del]

definition nearest :: "int \<Rightarrow> int \<Rightarrow> int" where
  "nearest a b =
     (let q = a div b; r = a mod b in
      if 2 * r < b \<or> (2 * r = b \<and> even q) then q else q + 1)"

definition toDouble :: "int \<Rightarrow> jsnum" where
  "toDouble n =
     (let m = \<bar>n\<bar>;
          ulp = 2 ^ (bits m - 53);
          r = nearest m ulp * ulp
      in if 2 ^ 1024 \<le> r then (if n < 0 then NegInf else PosInf)
         else Finite (if n < 0 then - r else r))"

fun minusOne :: "jsnum \<Rightarrow> jsnum" where
  "minusOne (Finite n) = toDouble (n - 1)"
| "minusOne x = x"

fun jsTimes :: "jsnum \<Rightarrow> jsnum \<Rightarrow> jsnum" where
  "jsTimes (Finite a) (Finite b) = toDouble (a * b)"
| "jsTimes NaN y = NaN"
| "jsTimes x NaN = NaN"
| "jsTimes (Finite a) PosInf = (if a = 0 then NaN else if 0 < a then PosInf else NegInf)"
| "jsTimes (Finite a) NegInf = (if a = 0 then NaN else if 0 < a then NegInf else PosInf)"
| "jsTimes PosInf (Finite b) = (if b = 0 then NaN else if 0 < b then PosInf else NegInf)"
| "jsTimes NegInf (Finite b) = (if b = 0 then NaN else if 0 < b then NegInf else PosInf)"
| "jsTimes PosInf PosInf = PosInf"
| "jsTimes PosInf NegInf = NegInf"
| "jsTimes NegInf PosInf = NegInf"
| "jsTimes NegInf NegInf = PosInf"

text \<open>A Number as a bound value.\<close>

fun numVal :: "jsnum \<Rightarrow> jsval" where
  "numVal (Finite n) = JNum n"
| "numVal PosInf = JDec ''Infinity''"
| "numVal NegInf = JDec ''-Infinity''"
| "numVal NaN = JDec ''NaN''"

record request =
  userId :: int

record list_request = request +
  pageParam :: qint
  limitParam :: qint
  filtersParam :: "string option"

record lead_request = request +
  idParam :: int
  errorsEmpty :: bool
  bodyEmail :: string
  body :: "string \<Rightarrow> jsval"
  nowIso :: string

text \<open>
  A response: \<^verbatim>\<open>res.status(n).json({error, message})\<close> is \<open>Failure n error message\<close>;
  the 400 of the validator chain carries the validator's error array instead of a
  message; the others are the success bodies of the five routes.
\<close>

datatype response =
    ValidationError
  | Failure nat string string
  | LeadsPage "lead list" jsnum jsnum int jsnum
  | LeadFound lead
  | LeadCreated "lead option"
  | LeadUpdated "lead option"
  | LeadDeleted

type_synonym statement = "string \<times> jsval list"

subsection \<open>GET /: the paginated query executor\<close>

text \<open>\<^verbatim>\<open>query(..).optional().isInt({ min, max })\<close>\<close>

fun isIntMin :: "int \<Rightarrow> qint \<Rightarrow> bool" where
  "isIntMin lo Missing = True"
| "isIntMin lo Malformed = False"
| "isIntMin lo (Given n) = (lo \<le> n)"

fun isIntMinMax :: "int \<Rightarrow> int \<Rightarrow> qint \<Rightarrow> bool" where
  "isIntMinMax lo hi Missing = True"
| "isIntMinMax lo hi Malformed = False"
| "isIntMinMax lo hi (Given n) = (lo \<le> n \<and> n \<le> hi)"

text \<open>\<^verbatim>\<open>parseInt(x) || d\<close>: \<^verbatim>\<open>parseInt\<close> gives the double nearest to the integer the
  digits denote; \<^verbatim>\<open>NaN\<close> and 0 are falsy. A value that is not an integer does not pass
  the validator, so it does not reach here.\<close>

fun parseIntOr :: "qint \<Rightarrow> jsnum \<Rightarrow> jsnum" where
  "parseIntOr (Given n) d = (if n \<noteq> 0 then toDouble n else d)"
| "parseIntOr _ d = d"

text \<open>
  \<^verbatim>\<open>Math.ceil(total / limit)\<close>, for the \<^verbatim>\<open>total\<close> of a \<^verbatim>\<open>COUNT(*)\<close>. A database file of
  SQLite holds less than \<open>2^48\<close> bytes, so a count is far below \<open>2^53\<close>: it is a double
  as it is, and the ceiling of its rounded quotient by an integer is the ceiling of the
  exact quotient.
\<close>

fun ceilDiv :: "int \<Rightarrow> jsnum \<Rightarrow> jsnum" where
  "ceilDiv t (Finite n) =
     (if n \<noteq> 0 then Finite \<lceil>real_of_int t / real_of_int n\<rceil>
      else if t = 0 then NaN else if 0 < t then PosInf else NegInf)"
| "ceilDiv t PosInf = Finite 0"
| "ceilDiv t NegInf = Finite 0"
| "ceilDiv t NaN = NaN"

text \<open>
  The handler returns the response and the statements it sent to the store, each with
  its bound values, in order. \<open>parse\<close> is \<^verbatim>\<open>JSON.parse\<close>, \<open>None\<close> where it throws. An
  exception of \<^verbatim>\<open>buildWhereClause\<close> is caught by the outer \<^verbatim>\<open>try\<close> of the handler.
\<close>

definition validQuery :: "list_request \<Rightarrow> bool" where
  "validQuery req = (isIntMin 1 (pageParam req) \<and> isIntMinMax 1 100 (limitParam req))"

text \<open>\<^verbatim>\<open>filters\<close> after the inner \<^verbatim>\<open>try\<close>: \<^verbatim>\<open>null\<close> unless \<^verbatim>\<open>req.query.filters\<close> is
  truthy (a non-empty string), \<open>None\<close> when \<^verbatim>\<open>JSON.parse\<close> throws.\<close>

definition parseFilters :: "(string \<Rightarrow> jsval option) \<Rightarrow> list_request \<Rightarrow> jsval option" where
  "parseFilters parse req =
     (case filtersParam req of
        None \<Rightarrow> Some JNull
      | Some text \<Rightarrow> if text \<noteq> [] then parse text else Some JNull)"

definition getLeads ::
  "(string \<Rightarrow> jsval option) \<Rightarrow> engine \<Rightarrow> store \<Rightarrow> list_request \<Rightarrow> response \<times> statement list" where
  "getLeads parse e s req =
     (if \<not> validQuery req then (ValidationError, [])
      else
        let page = parseIntOr (pageParam req) (Finite 1);
            limit = parseIntOr (limitParam req) (Finite 20);
            offset = jsTimes (minusOne page) limit
        in case parseFilters parse req of
             None \<Rightarrow> (Failure 400 ''Invalid filters'' ''Filters must be valid JSON'', [])
           | Some filters \<Rightarrow>
               (case buildWhereClause filters (JNum (userId req)) of
                  None \<Rightarrow> (Failure 500 ''Server error'' ''Failed to fetch leads'', [])
                | Some (whereClause, params) \<Rightarrow>
                    let countQuery = (''SELECT COUNT(*) as total FROM leads '' @ whereClause, params)
                    in (case dbGetTotal e s countQuery of
                          None \<Rightarrow>
                            (Failure 500 ''Database error'' ''Failed to count leads'', [countQuery])
                        | Some countResult \<Rightarrow>
                            let total = countResult;
                                totalPages = ceilDiv total limit;
                                queryParams = params @ [numVal limit, numVal offset];
                                rowQuery = (''SELECT * FROM leads '' @ whereClause
                                              @ '' ORDER BY created_at DESC LIMIT ? OFFSET ?'',
                                            queryParams)
                            in (case dbAll e s rowQuery of
                                  None \<Rightarrow>
                                    (Failure 500 ''Database error'' ''Failed to fetch leads'',
                                     [countQuery, rowQuery])
                                | Some rows \<Rightarrow>
                                    (LeadsPage rows page limit total totalPages,
                                     [countQuery, rowQuery])))))"

subsection \<open>POST /, GET /:id, PUT /:id, DELETE /:id\<close>

text \<open>A destructuring default \<^verbatim>\<open>{ x = d } = req.body\<close> applies when the field is
  \<^verbatim>\<open>undefined\<close>.\<close>

definition orDefault :: "jsval \<Rightarrow> jsval \<Rightarrow> jsval" where
  "orDefault v d = (if v = JUndefined then d else v)"

definition nextId :: "store \<Rightarrow> int" where
  "nextId s = 1 + fold max (map lead_id (leads s)) (seq s)"

text \<open>The row of the \<^verbatim>\<open>INSERT\<close>: the fourteen bound columns, and the two timestamps the
  table defaults.\<close>

definition newLead :: "engine \<Rightarrow> store \<Rightarrow> lead_request \<Rightarrow> lead" where
  "newLead e s req =
     \<lparr> lead_id = nextId s, user_id = userId req, email = bodyEmail req,
       attrs = (\<lambda>c.
         if c \<in> set [''first_name'', ''last_name'', ''phone'', ''company'', ''city'', ''state'',
                      ''source''] then stored e c (body req c)
         else if c = ''status'' then stored e c (orDefault (body req c) (JStr ''new''))
         else if c = ''score'' then stored e c (orDefault (body req c) (JNum 0))
         else if c = ''lead_value'' then stored e c (orDefault (body req c) (JNum 0))
         else if c = ''is_qualified'' then stored e c (orDefault (body req c) (JBool False))
         else if c = ''last_activity_at'' then stored e c (JStr (nowIso req))
         else if c = ''created_at'' \<or> c = ''updated_at'' then current_timestamp e
         else JNull) \<rparr>"

text \<open>\<^verbatim>\<open>INSERT INTO leads\<close>: refused (\<open>None\<close>) when \<^verbatim>\<open>UNIQUE(user_id, email)\<close> or another
  constraint of the table would be violated.\<close>

definition insertLead :: "engine \<Rightarrow> store \<Rightarrow> lead \<Rightarrow> store option" where
  "insertLead e s r =
     (if list_ex (\<lambda>x. user_id x = user_id r \<and> email x = email r) (leads s) \<or> \<not> admissible e r
      then None
      else Some \<lparr> leads = leads s @ [r], seq = lead_id r \<rparr>)"

definition createLead :: "engine \<Rightarrow> store \<Rightarrow> lead_request \<Rightarrow> response \<times> store" where
  "createLead e s req =
     (if \<not> errorsEmpty req then (ValidationError, s)
      else
        case find (\<lambda>r. user_id r = userId req \<and> email r = bodyEmail req) (leads s) of
          Some existingLead \<Rightarrow>
            (Failure 409 ''Lead already exists'' ''A lead with this email already exists'', s)
        | None \<Rightarrow>
            (case insertLead e s (newLead e s req) of
               None \<Rightarrow> (Failure 500 ''Database error'' ''Failed to create lead'', s)
             | Some s' \<Rightarrow>
                 (LeadCreated (find (\<lambda>r. lead_id r = seq s') (leads s')), s')))"

definition getLead :: "store \<Rightarrow> lead_request \<Rightarrow> response \<times> store" where
  "getLead s req =
     (case find (\<lambda>r. lead_id r = idParam req \<and> user_id r = userId req) (leads s) of
        None \<Rightarrow> (Failure 404 ''Lead not found'' ''Lead does not exist'', s)
      | Some lead \<Rightarrow> (LeadFound lead, s))"

text \<open>The row an \<^verbatim>\<open>UPDATE leads SET ... WHERE id = ? AND user_id = ?\<close> leaves in place
  of a row it matches.\<close>

definition updatedLead :: "engine \<Rightarrow> lead_request \<Rightarrow> lead \<Rightarrow> lead" where
  "updatedLead e req r =
     r \<lparr> email := bodyEmail req,
         attrs := (\<lambda>c.
           if c \<in> set [''first_name'', ''last_name'', ''phone'', ''company'', ''city'', ''state'',
                        ''source'', ''status'', ''score'', ''lead_value'', ''is_qualified'']
           then stored e c (body req c)
           else if c = ''updated_at'' then current_timestamp e
           else attrs r c) \<rparr>"

text \<open>The statement changes every matching row, or none if the result would violate a
  constraint; with the new store comes \<^verbatim>\<open>this.changes\<close>.\<close>

definition updateLeads :: "engine \<Rightarrow> store \<Rightarrow> lead_request \<Rightarrow> (store \<times> nat) option" where
  "updateLeads e s req =
     (let hit = (\<lambda>r. lead_id r = idParam req \<and> user_id r = userId req);
          rows = map (\<lambda>r. if hit r then updatedLead e req r else r) (leads s)
      in if \<not> distinct (map (\<lambda>r. (user_id r, email r)) rows)
            \<or> \<not> list_all (admissible e) (filter hit rows)
         then None
         else Some (s \<lparr> leads := rows \<rparr>, length (filter hit (leads s))))"

definition updateLead :: "engine \<Rightarrow> store \<Rightarrow> lead_request \<Rightarrow> response \<times> store" where
  "updateLead e s req =
     (if \<not> errorsEmpty req then (ValidationError, s)
      else
        case find (\<lambda>r. lead_id r = idParam req \<and> user_id r = userId req) (leads s) of
          None \<Rightarrow> (Failure 404 ''Lead not found'' ''Lead does not exist'', s)
        | Some existingLead \<Rightarrow>
            (case find (\<lambda>r. user_id r = userId req \<and> email r = bodyEmail req
                             \<and> lead_id r \<noteq> idParam req) (leads s) of
               Some duplicateLead \<Rightarrow>
                 (Failure 409 ''Email already exists''
                    ''Another lead with this email already exists'', s)
             | None \<Rightarrow>
                 (case updateLeads e s req of
                    None \<Rightarrow> (Failure 500 ''Database error'' ''Failed to update lead'', s)
                  | Some (s', changes) \<Rightarrow>
                      if changes = 0 then
                        (Failure 404 ''Lead not found'' ''Lead does not exist'', s')
                      else
                        (LeadUpdated (find (\<lambda>r. lead_id r = idParam req) (leads s')), s'))))"

definition deleteLead :: "store \<Rightarrow> lead_request \<Rightarrow> response \<times> store" where
  "deleteLead s req =
     (let hit = (\<lambda>r. lead_id r = idParam req \<and> user_id r = userId req);
          s' = s \<lparr> leads := filter (\<lambda>r. \<not> hit r) (leads s) \<rparr>;
          changes = length (filter hit (leads s))
      in if changes = 0 then (Failure 404 ''Lead not found'' ''Lead does not exist'', s')
         else (LeadDeleted, s'))"

section \<open>Vocabulary of the properties\<close>

text \<open>The ten names \<^verbatim>\<open>buildWhereClause\<close> reads from the filter document.\<close>

definition fieldNames :: "string list" where
  "fieldNames = [''email'', ''company'', ''city'', ''status'', ''source'', ''score'',
     ''lead_value'', ''created_at'', ''last_activity_at'', ''is_qualified'']"

text \<open>A condition is balanced when its fragment has one placeholder per bound value.\<close>

definition balanced :: "cond \<Rightarrow> bool" where
  "balanced c = (count_list (sql c) CHR ''?'' = length (binds c))"

text \<open>The nine of them whose entry is an \<^verbatim>\<open>{operator, value}\<close> pair, and the
  operators the specification's table permits for each (\<^verbatim>\<open>is_qualified\<close> takes no
  operator).\<close>

definition operatorFields :: "string list" where
  "operatorFields = [''email'', ''company'', ''city'', ''status'', ''source'', ''score'',
     ''lead_value'', ''created_at'', ''last_activity_at'']"

definition permittedOperators :: "string \<Rightarrow> string list" where
  "permittedOperators field =
     (if field \<in> set [''email'', ''company'', ''city''] then [''equals'', ''contains'']
      else if field \<in> set [''status'', ''source''] then [''equals'', ''in'']
      else if field \<in> set [''score'', ''lead_value''] then [''equals'', ''gt'', ''lt'', ''between'']
      else if field \<in> set [''created_at'', ''last_activity_at'']
        then [''on'', ''before'', ''after'', ''between'']
      else [])"

text \<open>The conditions of one field, by its name, and the column a condition is on.\<close>

definition fieldConds :: "string \<Rightarrow> jsval \<Rightarrow> cond list" where
  "fieldConds field f =
     (if field \<in> set [''email'', ''company'', ''city''] then stringConds field f
      else if field \<in> set [''status'', ''source''] then enumConds field f
      else if field \<in> set [''score'', ''lead_value''] then numberConds field f
      else if field \<in> set [''created_at'', ''last_activity_at''] then dateConds field f
      else if field = ''is_qualified'' then booleanConds f
      else [])"

fun condColumn :: "cond \<Rightarrow> string" where
  "condColumn (Equals col v) = col"
| "condColumn (Like col v) = col"
| "condColumn (InList col vs) = col"
| "condColumn (Greater col v) = col"
| "condColumn (Less col v) = col"
| "condColumn (Between col lo hi) = col"
| "condColumn (OnDate col v) = col"

text \<open>A column name as the reader takes it: lower-case letters and underscores.\<close>

definition colName :: "string \<Rightarrow> bool" where
  "colName col = (col \<noteq> [] \<and> (\<forall>c\<in>set col. identChar c))"

text \<open>The four fields that take \<^verbatim>\<open>between\<close>.\<close>

definition rangeFields :: "string list" where
  "rangeFields = [''score'', ''lead_value'', ''created_at'', ''last_activity_at'']"

text \<open>The page, the limit and the offset of a list request, as the handler computes
  them, and the page and the limit the request asks for: the integer of the parameter,
  the default when there is none or it is zero.\<close>

definition pageOf :: "list_request \<Rightarrow> jsnum" where
  "pageOf req = parseIntOr (pageParam req) (Finite 1)"

definition limitOf :: "list_request \<Rightarrow> jsnum" where
  "limitOf req = parseIntOr (limitParam req) (Finite 20)"

definition offsetOf :: "list_request \<Rightarrow> jsnum" where
  "offsetOf req = jsTimes (minusOne (pageOf req)) (limitOf req)"

fun asked :: "qint \<Rightarrow> int \<Rightarrow> int" where
  "asked (Given n) d = (if n \<noteq> 0 then n else d)"
| "asked _ d = d"

text \<open>The tenant condition.\<close>

definition tenantCond :: "int \<Rightarrow> cond" where
  "tenantCond u = Equals ''user_id'' (JNum u)"

text \<open>The rows of the store that a list request with this filter document selects:
  those on which the tenant condition and every condition of the document hold.\<close>

definition pageRows :: "engine \<Rightarrow> store \<Rightarrow> list_request \<Rightarrow> jsval \<Rightarrow> lead list" where
  "pageRows e s req filters =
     selectWhere e (tenantCond (userId req) # filterConds filters) (leads s)"

subsection \<open>Example data\<close>

text \<open>An engine that compares integers and texts only, a store with leads of the
  tenants 1 and 2, and a filter document with one entry of each kind.\<close>

definition exEngine :: engine where
  "exEngine = \<lparr> mixed_eq = (\<lambda>x v. False), mixed_lt = (\<lambda>x v. False), like = (\<lambda>x v. False),
                 date = (\<lambda>x. x), current_timestamp = JNum 50, stored = (\<lambda>c v. v),
                 admissible = (\<lambda>r. True) \<rparr>"

definition exAttrs :: "int \<Rightarrow> int \<Rightarrow> string \<Rightarrow> jsval" where
  "exAttrs score created c =
     (if c = ''score'' then JNum score else if c = ''created_at'' then JNum created else JNull)"

definition exLeadA :: lead where
  "exLeadA = \<lparr> lead_id = 1, user_id = 1, email = ''ann@example.com'', attrs = exAttrs 40 10 \<rparr>"

definition exLeadB :: lead where
  "exLeadB = \<lparr> lead_id = 2, user_id = 2, email = ''ann@example.com'', attrs = exAttrs 50 20 \<rparr>"

definition exLeadC :: lead where
  "exLeadC = \<lparr> lead_id = 3, user_id = 1, email = ''cy@example.com'', attrs = exAttrs 90 30 \<rparr>"

definition exStore :: store where
  "exStore = \<lparr> leads = [exLeadA, exLeadB, exLeadC], seq = 3 \<rparr>"

definition exEntries :: "(string \<times> jsval) list" where
  "exEntries =
     [(''email'', JObj [(''operator'', JStr ''contains''), (''value'', JStr ''ann'')]),
      (''status'', JObj [(''operator'', JStr ''in''), (''value'', JArr [JStr ''new'', JStr ''won''])]),
      (''score'', JObj [(''operator'', JStr ''between''), (''value'', JArr [JNum 10, JNum 60])]),
      (''created_at'', JObj [(''operator'', JStr ''after''), (''value'', JStr ''2024-01-01'')]),
      (''is_qualified'', JBool False)]"

definition exFilters :: jsval where
  "exFilters = JObj exEntries"

text \<open>A filter document with a range on the score as the client sends it and as
  \<^verbatim>\<open>JSON.parse\<close> returns it, one whose range is not a list, a parser that knows the empty
  object and the first of the two, and list requests of tenant 1.\<close>

definition exScoreText :: string where
  \<open>exScoreText = ''{"score":{"operator":"between","value":[10,60]}}''\<close>

definition exScoreFilter :: jsval where
  "exScoreFilter = JObj [(''score'',
     JObj [(''operator'', JStr ''between''), (''value'', JArr [JNum 10, JNum 60])])]"

definition exDateFilter :: jsval where
  "exDateFilter = JObj [(''created_at'',
     JObj [(''operator'', JStr ''between''), (''value'', JStr ''2024-01-01'')])]"

text \<open>A filter document whose \<^verbatim>\<open>contains\<close> value has a \<^verbatim>\<open>toString\<close> of its own.\<close>

definition exThrowText :: string where
  \<open>exThrowText = ''{"email":{"operator":"contains","value":{"toString":1}}}''\<close>

definition exThrowFilter :: jsval where
  "exThrowFilter = JObj [(''email'',
     JObj [(''operator'', JStr ''contains''), (''value'', JObj [(''toString'', JNum 1)])])]"

definition exParse :: "string \<Rightarrow> jsval option" where
  "exParse raw =
     (if raw = ''{}'' then Some (JObj [])
      else if raw = exScoreText then Some exScoreFilter
      else if raw = exThrowText then Some exThrowFilter
      else None)"

definition exScoreReq :: list_request where
  "exScoreReq = \<lparr> userId = 1, pageParam = Missing, limitParam = Missing,
                   filtersParam = Some exScoreText \<rparr>"

definition exListReq :: list_request where
  "exListReq = \<lparr> userId = 1, pageParam = Missing, limitParam = Given 10,
                  filtersParam = Some ''{}'' \<rparr>"

text \<open>Further list requests: a tenant without leads, an empty \<^verbatim>\<open>filters\<close> parameter, one
  that is not JSON, and one that is not JSON beside a page that is out of range; the
  second page of tenant 1 at one lead a page; the pages \<open>10^18\<close> and \<open>2^53 + 1\<close> of the
  tenant without leads; and a request with the document whose value does not print.\<close>

definition exSecondPageReq :: list_request where
  "exSecondPageReq = \<lparr> userId = 1, pageParam = Given 2, limitParam = Given 1,
                        filtersParam = None \<rparr>"

definition exLargePageReq :: list_request where
  "exLargePageReq = \<lparr> userId = 9, pageParam = Given 1000000000000000000, limitParam = Given 10,
                       filtersParam = None \<rparr>"

definition exOddPageReq :: list_request where
  "exOddPageReq = \<lparr> userId = 9, pageParam = Given 9007199254740993, limitParam = Missing,
                     filtersParam = None \<rparr>"

definition exThrowReq :: list_request where
  "exThrowReq = \<lparr> userId = 9, pageParam = Missing, limitParam = Missing,
                   filtersParam = Some exThrowText \<rparr>"

definition exNoLeadsReq :: list_request where
  "exNoLeadsReq = \<lparr> userId = 9, pageParam = Given 3, limitParam = Missing,
                     filtersParam = None \<rparr>"

definition exEmptyReq :: list_request where
  "exEmptyReq = \<lparr> userId = 1, pageParam = Missing, limitParam = Missing,
                   filtersParam = Some [] \<rparr>"

definition exBadJsonReq :: list_request where
  "exBadJsonReq = \<lparr> userId = 1, pageParam = Missing, limitParam = Missing,
                     filtersParam = Some ''{bad'' \<rparr>"

definition exBadPageReq :: list_request where
  "exBadPageReq = \<lparr> userId = 1, pageParam = Given 0, limitParam = Missing,
                     filtersParam = Some ''{bad'' \<rparr>"

text \<open>An entry whose operator is not one of the permitted ones.\<close>

definition exBadEntry :: jsval where
  "exBadEntry = JObj [(''operator'', JStr ''gt''), (''value'', JNum 3)]"

text \<open>The 404 of the three routes that take an id. A lead id is absent when no row has
  it, and foreign to the caller when rows have it and none of them is the caller's. A
  row is hit by a request when it has the id and is the caller's.\<close>

definition notFound :: response where
  "notFound = Failure 404 ''Lead not found'' ''Lead does not exist''"

definition absentId :: "store \<Rightarrow> lead_request \<Rightarrow> bool" where
  "absentId s req = (\<forall>r\<in>set (leads s). lead_id r \<noteq> idParam req)"

definition foreignId :: "store \<Rightarrow> lead_request \<Rightarrow> bool" where
  "foreignId s req =
     ((\<exists>r\<in>set (leads s). lead_id r = idParam req)
      \<and> (\<forall>r\<in>set (leads s). lead_id r = idParam req \<longrightarrow> user_id r \<noteq> userId req))"

definition uniqueEmails :: "store \<Rightarrow> bool" where
  "uniqueEmails s = distinct (map (\<lambda>r. (user_id r, email r)) (leads s))"

definition hit :: "lead_request \<Rightarrow> lead \<Rightarrow> bool" where
  "hit req r = (lead_id r = idParam req \<and> user_id r = userId req)"

text \<open>Write requests: tenant 1 and tenant 2 creating a lead with an email that a lead
  of tenant 1 has; tenant 1 asking for an id that no lead has, and for the id of a lead
  of tenant 2.\<close>

definition exBody :: "string \<Rightarrow> jsval" where
  "exBody c =
     (if c = ''first_name'' then JStr ''Cy''
      else if c = ''last_name'' then JStr ''Young''
      else if c = ''source'' then JStr ''website''
      else JUndefined)"

definition exCreateSame :: lead_request where
  "exCreateSame = \<lparr> userId = 1, idParam = 0, errorsEmpty = True,
                     bodyEmail = ''cy@example.com'', body = exBody,
                     nowIso = ''2024-05-01T00:00:00.000Z'' \<rparr>"

definition exCreateOther :: lead_request where
  "exCreateOther = \<lparr> userId = 2, idParam = 0, errorsEmpty = True,
                      bodyEmail = ''cy@example.com'', body = exBody,
                      nowIso = ''2024-05-01T00:00:00.000Z'' \<rparr>"

definition exAbsentReq :: lead_request where
  "exAbsentReq = \<lparr> userId = 1, idParam = 7, errorsEmpty = True,
                    bodyEmail = ''ann@example.com'', body = exBody,
                    nowIso = ''2024-05-01T00:00:00.000Z'' \<rparr>"

definition exForeignReq :: lead_request where
  "exForeignReq = \<lparr> userId = 1, idParam = 2, errorsEmpty = True,
                     bodyEmail = ''ann@example.com'', body = exBody,
                     nowIso = ''2024-05-01T00:00:00.000Z'' \<rparr>"

section \<open>Properties\<close>

subsection \<open>The text is the conditions, rendered in order\<close>

lemma addConds_Nil: "addConds a [] = a"
  by (simp add: addConds_def)

lemma addConds_append: "addConds (addConds a cs) ds = addConds a (cs @ ds)"
  by (simp add: addConds_def)

lemma stringField_conds:
  "stringField col f a
     = (if containsThrows f then None else Some (addConds a (stringConds col f)))"
  by (cases a)
     (auto simp add: stringField_def stringConds_def addConds_def containsThrows_def printed_def)

lemma enumField_conds: "enumField col f a = addConds a (enumConds col f)"
  by (cases a) (auto simp add: enumField_def enumConds_def addConds_def)

lemma numberField_conds: "numberField col f a = addConds a (numberConds col f)"
  by (cases a) (auto simp add: numberField_def numberConds_def addConds_def)

lemma dateField_conds: "dateField col f a = addConds a (dateConds col f)"
  by (cases a) (auto simp add: dateField_def dateConds_def addConds_def)

lemma booleanField_conds: "booleanField q a = addConds a (booleanConds q)"
  by (cases a) (simp add: booleanField_def booleanConds_def addConds_def)

lemma buildWhereClause_conds:
  "buildWhereClause filters uid
     = (if throws filters then None
        else Some (addConds (''WHERE user_id = ?'', [uid]) (filterConds filters)))"
  unfolding buildWhereClause_def Let_def filterConds_def throws_def
  by (simp add: stringField_conds enumField_conds numberField_conds dateField_conds
      booleanField_conds addConds_append addConds_Nil)

lemma buildWhereClause_Some:
  "buildWhereClause filters uid = Some (w, p) \<longleftrightarrow>
     \<not> throws filters \<and> (w, p) = addConds (''WHERE user_id = ?'', [uid]) (filterConds filters)"
  by (auto simp add: buildWhereClause_conds)

lemma containsThrows_undefined: "\<not> containsThrows JUndefined"
  by (simp add: containsThrows_def)

subsection \<open>Placeholders and bound values\<close>

lemma count_placeholders: "count_list (join '','' (map (\<lambda>_. ''?'') vs)) CHR ''?'' = length vs"
  by (induction vs rule: induct_list012) simp_all

lemma stringConds_balanced:
  "count_list col CHR ''?'' = 0 \<Longrightarrow> c \<in> set (stringConds col f) \<Longrightarrow> balanced c"
  by (auto simp: stringConds_def balanced_def split: if_splits)

lemma enumConds_balanced:
  "count_list col CHR ''?'' = 0 \<Longrightarrow> c \<in> set (enumConds col f) \<Longrightarrow> balanced c"
  by (auto simp: enumConds_def balanced_def count_placeholders split: if_splits)

lemma numberConds_balanced:
  "count_list col CHR ''?'' = 0 \<Longrightarrow> c \<in> set (numberConds col f) \<Longrightarrow> balanced c"
  by (auto simp: numberConds_def balanced_def split: if_splits)

lemma dateConds_balanced:
  "count_list col CHR ''?'' = 0 \<Longrightarrow> c \<in> set (dateConds col f) \<Longrightarrow> balanced c"
  by (auto simp: dateConds_def balanced_def split: if_splits)

lemma booleanConds_balanced: "c \<in> set (booleanConds q) \<Longrightarrow> balanced c"
  by (auto simp: booleanConds_def balanced_def split: if_splits)

lemma filterConds_balanced: "c \<in> set (filterConds filters) \<Longrightarrow> balanced c"
  unfolding filterConds_def
  by (auto split: if_splits
      dest!: stringConds_balanced [rotated] enumConds_balanced [rotated]
        numberConds_balanced [rotated] dateConds_balanced [rotated] booleanConds_balanced)

lemma addConds_count:
  "\<forall>c\<in>set cs. balanced c \<Longrightarrow>
   count_list (fst (addConds a cs)) CHR ''?''
     = count_list (fst a) CHR ''?'' + length (concat (map binds cs))"
  by (induction cs arbitrary: a) (auto simp: addConds_def balanced_def)

lemmas conds_defs =
  filterConds_def stringConds_def enumConds_def numberConds_def dateConds_def booleanConds_def

subsection \<open>Entries the compiler does not know\<close>

lemma get_update:
  "get (JObj (AList.update k v kvs)) k' = (if k' = k then v else get (JObj kvs) k')"
  by (simp add: update_conv')

lemma get_delete:
  "get (JObj (AList.delete k kvs)) k' = (if k' = k then JUndefined else get (JObj kvs) k')"
  by (simp add: delete_conv')

lemma conds_undefined:
  "stringConds col JUndefined = []" "enumConds col JUndefined = []"
  "numberConds col JUndefined = []" "dateConds col JUndefined = []"
  "booleanConds JUndefined = []"
  by (simp_all add: conds_defs)

lemma stringConds_unpermitted:
  "get v ''operator'' \<notin> JStr ` set [''equals'', ''contains''] \<Longrightarrow> stringConds col v = []"
  by (auto simp: stringConds_def)

lemma enumConds_unpermitted:
  "get v ''operator'' \<notin> JStr ` set [''equals'', ''in''] \<Longrightarrow> enumConds col v = []"
  by (auto simp: enumConds_def)

lemma numberConds_unpermitted:
  "get v ''operator'' \<notin> JStr ` set [''equals'', ''gt'', ''lt'', ''between'']
     \<Longrightarrow> numberConds col v = []"
  by (auto simp: numberConds_def)

lemma dateConds_unpermitted:
  "get v ''operator'' \<notin> JStr ` set [''on'', ''before'', ''after'', ''between'']
     \<Longrightarrow> dateConds col v = []"
  by (auto simp: dateConds_def)

lemma filterConds_fields:
  "filterConds filters =
     (if truthy filters then concat (map (\<lambda>n. fieldConds n (get filters n)) fieldNames) else [])"
  by (simp add: filterConds_def fieldNames_def fieldConds_def)

lemma filterConds_cong:
  assumes "truthy a = truthy b"
    and "\<And>n. n \<in> set fieldNames \<Longrightarrow> fieldConds n (get a n) = fieldConds n (get b n)"
  shows "filterConds a = filterConds b"
proof -
  have "map (\<lambda>n. fieldConds n (get a n)) fieldNames = map (\<lambda>n. fieldConds n (get b n)) fieldNames"
    by (rule map_cong [OF refl]) (rule assms(2))
  then show ?thesis
    unfolding filterConds_fields using assms(1) by (simp only:)
qed

lemma fieldConds_undefined: "fieldConds n JUndefined = []"
  by (simp add: fieldConds_def conds_undefined)

lemma fieldConds_unpermitted:
  assumes "k \<in> set operatorFields" "get v ''operator'' \<notin> JStr ` set (permittedOperators k)"
  shows "fieldConds k v = []"
proof -
  from assms(1) have "k = ''email'' \<or> k = ''company'' \<or> k = ''city'' \<or> k = ''status''
    \<or> k = ''source'' \<or> k = ''score'' \<or> k = ''lead_value'' \<or> k = ''created_at''
    \<or> k = ''last_activity_at''"
    by (simp add: operatorFields_def)
  then show ?thesis
    using assms(2)
    by (elim disjE)
       (simp_all add: fieldConds_def permittedOperators_def stringConds_unpermitted
          enumConds_unpermitted numberConds_unpermitted dateConds_unpermitted)
qed

lemma unknown_field_conds:
  assumes "k \<notin> set fieldNames"
  shows "filterConds (JObj (AList.update k v kvs)) = filterConds (JObj kvs)"
    and "filterConds (JObj (AList.delete k kvs)) = filterConds (JObj kvs)"
proof -
  have ne: "n \<in> set fieldNames \<Longrightarrow> (n = k) = False" for n
    using assms by blast
  show "filterConds (JObj (AList.update k v kvs)) = filterConds (JObj kvs)"
  proof (rule filterConds_cong)
    show "truthy (JObj (AList.update k v kvs)) = truthy (JObj kvs)"
      by simp
    show "fieldConds n (get (JObj (AList.update k v kvs)) n) = fieldConds n (get (JObj kvs) n)"
      if "n \<in> set fieldNames" for n
      by (simp only: get_update ne [OF that] if_False)
  qed
  show "filterConds (JObj (AList.delete k kvs)) = filterConds (JObj kvs)"
  proof (rule filterConds_cong)
    show "truthy (JObj (AList.delete k kvs)) = truthy (JObj kvs)"
      by simp
    show "fieldConds n (get (JObj (AList.delete k kvs)) n) = fieldConds n (get (JObj kvs) n)"
      if "n \<in> set fieldNames" for n
      by (simp only: get_delete ne [OF that] if_False)
  qed
qed

lemma unpermitted_operator_conds:
  assumes "k \<in> set operatorFields" "get v ''operator'' \<notin> JStr ` set (permittedOperators k)"
  shows "filterConds (JObj (AList.update k v kvs)) = filterConds (JObj (AList.delete k kvs))"
proof (rule filterConds_cong)
  show "truthy (JObj (AList.update k v kvs)) = truthy (JObj (AList.delete k kvs))"
    by simp
next
  fix n
  show "fieldConds n (get (JObj (AList.update k v kvs)) n)
      = fieldConds n (get (JObj (AList.delete k kvs)) n)"
  proof (cases "n = k")
    case True
    then show ?thesis
      unfolding get_update get_delete
      by (simp add: fieldConds_undefined fieldConds_unpermitted [OF assms])
  next
    case False
    then show ?thesis
      unfolding get_update get_delete by simp
  qed
qed

lemma unknown_field_throws:
  assumes "k \<notin> set fieldNames"
  shows "throws (JObj (AList.update k v kvs)) = throws (JObj kvs)"
    and "throws (JObj (AList.delete k kvs)) = throws (JObj kvs)"
proof -
  from assms have ne: "(''email'' = k) = False" "(''company'' = k) = False" "(''city'' = k) = False"
    by (auto simp: fieldNames_def)
  show "throws (JObj (AList.update k v kvs)) = throws (JObj kvs)"
    unfolding throws_def get_update by (simp only: ne if_False truthy.simps)
  show "throws (JObj (AList.delete k kvs)) = throws (JObj kvs)"
    unfolding throws_def get_delete by (simp only: ne if_False truthy.simps)
qed

lemma unpermitted_operator_throws:
  assumes "k \<in> set operatorFields" "get v ''operator'' \<notin> JStr ` set (permittedOperators k)"
  shows "throws (JObj (AList.update k v kvs)) = throws (JObj (AList.delete k kvs))"
proof -
  have c: "k \<in> set [''email'', ''company'', ''city''] \<Longrightarrow> \<not> containsThrows v"
    using assms(2) by (auto simp: containsThrows_def permittedOperators_def)
  have "(if n = k then containsThrows v else containsThrows (get (JObj kvs) n))
      = (if n = k then containsThrows JUndefined else containsThrows (get (JObj kvs) n))"
    if "n \<in> set [''email'', ''company'', ''city'']" for n
    using c that by (auto simp: containsThrows_undefined)
  then show ?thesis
    unfolding throws_def get_update get_delete by (simp add: if_distrib [of containsThrows])
qed

lemma throws_qualified:
  "throws (JObj kvs) = throws (JObj (AList.delete ''is_qualified'' kvs))"
  unfolding throws_def get_delete by simp

lemma filterConds_qualified:
  "filterConds (JObj kvs)
     = filterConds (JObj (AList.delete ''is_qualified'' kvs))
         @ booleanConds (get (JObj kvs) ''is_qualified'')"
  unfolding filterConds_def get_delete
  by (simp add: conds_undefined)

lemma qualified_entry_conds:
  assumes "v \<noteq> JUndefined"
  shows "buildWhereClause (JObj (AList.update ''is_qualified'' v kvs)) uid
     = map_option
         (\<lambda>a. (fst a @ '' AND is_qualified = ?'', snd a @ [JNum (if truthy v then 1 else 0)]))
         (buildWhereClause (JObj (AList.delete ''is_qualified'' kvs)) uid)"
proof -
  have g: "get (JObj (AList.update ''is_qualified'' v kvs)) ''is_qualified'' = v"
    unfolding get_update by simp
  show ?thesis
    unfolding buildWhereClause_conds
      filterConds_qualified [of "AList.update ''is_qualified'' v kvs"]
      throws_qualified [of "AList.update ''is_qualified'' v kvs"] g delete_update_same
    using assms by (simp add: addConds_def booleanConds_def)
qed

text \<open>
  C4 as stated does not hold: \<^verbatim>\<open>is_qualified\<close> is a recognized field with no permitted
  operator, and an entry for it adds a clause whatever it holds. The document
  \<^verbatim>\<open>{"is_qualified": {"operator": "gt", "value": 3}}\<close> compiles to
  \<^verbatim>\<open>WHERE user_id = ? AND is_qualified = ?\<close> with the bound values 1 and 1, the document
  without the entry to \<^verbatim>\<open>WHERE user_id = ?\<close> with the bound value 1.
\<close>

theorem qualified_operator_entry_not_ignored:
  "''is_qualified'' \<in> set fieldNames
   \<and> get exBadEntry ''operator'' \<notin> JStr ` set (permittedOperators ''is_qualified'')
   \<and> buildWhereClause (JObj (AList.update ''is_qualified'' exBadEntry [])) (JNum 1)
       = Some (''WHERE user_id = ? AND is_qualified = ?'', [JNum 1, JNum 1])
   \<and> buildWhereClause (JObj (AList.delete ''is_qualified'' [])) (JNum 1)
       = Some (''WHERE user_id = ?'', [JNum 1])"
  by (simp add: fieldNames_def permittedOperators_def exBadEntry_def buildWhereClause_def
      stringField_def enumField_def numberField_def dateField_def booleanField_def)

text \<open>
  C4, amended. For every filter document (an object), adding an entry whose field name
  is not one of the recognized names, or removing such an entry, leaves what
  \<^verbatim>\<open>buildWhereClause\<close> does unchanged: the same text and the same bound values, or an
  exception in both cases; and for each of the nine fields that take an operator, a
  document with an entry whose operator is not one of that field's permitted operators
  compiles as the document without the entry does. So neither kind of entry is an error
  or adds a clause. An entry for \<^verbatim>\<open>is_qualified\<close>, which takes no operator, adds the
  clause \<^verbatim>\<open> AND is_qualified = ?\<close> to what the document without it compiles to,
  whatever the entry holds.
\<close>

theorem unknown_entries_ignored:
  "(k \<notin> set fieldNames \<longrightarrow>
      buildWhereClause (JObj (AList.update k v kvs)) uid = buildWhereClause (JObj kvs) uid
    \<and> buildWhereClause (JObj (AList.delete k kvs)) uid = buildWhereClause (JObj kvs) uid)
   \<and> (k \<in> set operatorFields \<and> get v ''operator'' \<notin> JStr ` set (permittedOperators k) \<longrightarrow>
        buildWhereClause (JObj (AList.update k v kvs)) uid
          = buildWhereClause (JObj (AList.delete k kvs)) uid)
   \<and> (v \<noteq> JUndefined \<longrightarrow>
        buildWhereClause (JObj (AList.update ''is_qualified'' v kvs)) uid
          = map_option
              (\<lambda>a. (fst a @ '' AND is_qualified = ?'',
                    snd a @ [JNum (if truthy v then 1 else 0)]))
              (buildWhereClause (JObj (AList.delete ''is_qualified'' kvs)) uid))"
  by (simp add: buildWhereClause_conds unknown_field_conds unpermitted_operator_conds
      unknown_field_throws unpermitted_operator_throws qualified_entry_conds [unfolded buildWhereClause_conds])

theorem unknown_entries_ignored_witness:
  "''user_id'' \<notin> set fieldNames
   \<and> buildWhereClause (JObj (AList.update ''user_id'' exBadEntry exEntries)) (JNum 1)
       = buildWhereClause (JObj exEntries) (JNum 1)
   \<and> buildWhereClause (JObj (AList.delete ''user_id'' exEntries)) (JNum 1)
       = buildWhereClause (JObj exEntries) (JNum 1)
   \<and> ''email'' \<in> set operatorFields
   \<and> get exBadEntry ''operator'' \<notin> JStr ` set (permittedOperators ''email'')
   \<and> buildWhereClause (JObj (AList.update ''email'' exBadEntry exEntries)) (JNum 1)
       = buildWhereClause (JObj (AList.delete ''email'' exEntries)) (JNum 1)
   \<and> exBadEntry \<noteq> JUndefined
   \<and> buildWhereClause (JObj (AList.update ''is_qualified'' exBadEntry exEntries)) (JNum 1)
       = map_option (\<lambda>a. (fst a @ '' AND is_qualified = ?'', snd a @ [JNum 1]))
           (buildWhereClause (JObj (AList.delete ''is_qualified'' exEntries)) (JNum 1))"
proof -
  have h: "''user_id'' \<notin> set fieldNames" "''email'' \<in> set operatorFields"
    "get exBadEntry ''operator'' \<notin> JStr ` set (permittedOperators ''email'')"
    "exBadEntry \<noteq> JUndefined" "truthy exBadEntry"
    by (simp_all add: fieldNames_def operatorFields_def permittedOperators_def exBadEntry_def)
  from h(1) unknown_entries_ignored [where k = "''user_id''" and v = exBadEntry
      and kvs = exEntries and uid = "JNum 1"]
  have "buildWhereClause (JObj (AList.update ''user_id'' exBadEntry exEntries)) (JNum 1)
       = buildWhereClause (JObj exEntries) (JNum 1)"
    "buildWhereClause (JObj (AList.delete ''user_id'' exEntries)) (JNum 1)
       = buildWhereClause (JObj exEntries) (JNum 1)"
    by blast+
  moreover from h(2,3) unknown_entries_ignored [where k = "''email''" and v = exBadEntry
      and kvs = exEntries and uid = "JNum 1"]
  have "buildWhereClause (JObj (AList.update ''email'' exBadEntry exEntries)) (JNum 1)
       = buildWhereClause (JObj (AList.delete ''email'' exEntries)) (JNum 1)"
    by blast
  moreover from h(4,5) unknown_entries_ignored [where v = exBadEntry
      and kvs = exEntries and uid = "JNum 1"]
  have "buildWhereClause (JObj (AList.update ''is_qualified'' exBadEntry exEntries)) (JNum 1)
       = map_option (\<lambda>a. (fst a @ '' AND is_qualified = ?'', snd a @ [JNum 1]))
           (buildWhereClause (JObj (AList.delete ''is_qualified'' exEntries)) (JNum 1))"
    by simp
  ultimately show ?thesis
    using h(1-4) by blast
qed

subsection \<open>Which field a condition comes from\<close>

lemma stringConds_column: "c \<in> set (stringConds col f) \<Longrightarrow> condColumn c = col"
  by (auto simp: stringConds_def split: if_splits)

lemma enumConds_column: "c \<in> set (enumConds col f) \<Longrightarrow> condColumn c = col"
  by (auto simp: enumConds_def split: if_splits)

lemma numberConds_column: "c \<in> set (numberConds col f) \<Longrightarrow> condColumn c = col"
  by (auto simp: numberConds_def split: if_splits)

lemma dateConds_column: "c \<in> set (dateConds col f) \<Longrightarrow> condColumn c = col"
  by (auto simp: dateConds_def split: if_splits)

lemma booleanConds_column: "c \<in> set (booleanConds f) \<Longrightarrow> condColumn c = ''is_qualified''"
  by (auto simp: booleanConds_def split: if_splits)

lemma fieldConds_column:
  assumes "c \<in> set (fieldConds n f)"
  shows "condColumn c = n"
proof -
  from assms have "c \<in> set (stringConds n f) \<or> c \<in> set (enumConds n f)
      \<or> c \<in> set (numberConds n f) \<or> c \<in> set (dateConds n f)
      \<or> (n = ''is_qualified'' \<and> c \<in> set (booleanConds f))"
    unfolding fieldConds_def
    by (auto simp only: empty_iff list.set(1) split: if_splits)
  then show ?thesis
    using stringConds_column enumConds_column numberConds_column dateConds_column
      booleanConds_column by blast
qed

lemma filterConds_column:
  "c \<in> set (filterConds filters) \<Longrightarrow>
     truthy filters \<and> condColumn c \<in> set fieldNames
       \<and> c \<in> set (fieldConds (condColumn c) (get filters (condColumn c)))"
  unfolding filterConds_fields
  by (auto split: if_splits dest: fieldConds_column)

lemma fieldConds_in_filterConds:
  "truthy filters \<Longrightarrow> n \<in> set fieldNames \<Longrightarrow> c \<in> set (fieldConds n (get filters n))
     \<Longrightarrow> c \<in> set (filterConds filters)"
  unfolding filterConds_fields by auto

lemma get_defined_truthy: "get filters n \<noteq> JUndefined \<Longrightarrow> truthy filters"
  by (cases filters) simp_all


text \<open>
  C8. For every filter document in which \<^verbatim>\<open>is_qualified\<close> is present with a value other
  than \<^verbatim>\<open>undefined\<close> (\<^verbatim>\<open>false\<close>, 0, \<^verbatim>\<open>null\<close> and the empty string included), the
  compiler appends \<^verbatim>\<open> AND is_qualified = ?\<close> and binds 1 or 0 by the truthiness of the
  value, after everything the document without that key compiles to (and it throws
  exactly when the compiler throws on the document without the key). When the key is
  absent the read gives \<^verbatim>\<open>undefined\<close> and nothing is appended. For any document at
  all, there is a condition on \<^verbatim>\<open>is_qualified\<close> exactly when the read is not
  \<^verbatim>\<open>undefined\<close>.
\<close>

theorem qualified_presence_adds_clause:
  "(get (JObj kvs) ''is_qualified'' \<noteq> JUndefined \<longrightarrow>
      buildWhereClause (JObj kvs) uid
        = map_option
            (\<lambda>a. (fst a @ '' AND is_qualified = ?'',
                  snd a @ [JNum (if truthy (get (JObj kvs) ''is_qualified'') then 1 else 0)]))
            (buildWhereClause (JObj (AList.delete ''is_qualified'' kvs)) uid))
   \<and> (get (JObj kvs) ''is_qualified'' = JUndefined \<longrightarrow>
        buildWhereClause (JObj kvs) uid
          = buildWhereClause (JObj (AList.delete ''is_qualified'' kvs)) uid)
   \<and> (map_of kvs ''is_qualified'' = None \<longrightarrow> get (JObj kvs) ''is_qualified'' = JUndefined)
   \<and> ((\<exists>c\<in>set (filterConds filters). condColumn c = ''is_qualified'')
        \<longleftrightarrow> get filters ''is_qualified'' \<noteq> JUndefined)"
proof (intro conjI impI)
  assume "get (JObj kvs) ''is_qualified'' \<noteq> JUndefined"
  then show "buildWhereClause (JObj kvs) uid
        = map_option
            (\<lambda>a. (fst a @ '' AND is_qualified = ?'',
                  snd a @ [JNum (if truthy (get (JObj kvs) ''is_qualified'') then 1 else 0)]))
            (buildWhereClause (JObj (AList.delete ''is_qualified'' kvs)) uid)"
    unfolding buildWhereClause_conds filterConds_qualified [of kvs] throws_qualified [of kvs]
    by (simp add: addConds_def booleanConds_def)
next
  assume "get (JObj kvs) ''is_qualified'' = JUndefined"
  then show "buildWhereClause (JObj kvs) uid
          = buildWhereClause (JObj (AList.delete ''is_qualified'' kvs)) uid"
    unfolding buildWhereClause_conds filterConds_qualified [of kvs] throws_qualified [of kvs]
    by (simp add: booleanConds_def)
next
  assume "map_of kvs ''is_qualified'' = None"
  then show "get (JObj kvs) ''is_qualified'' = JUndefined"
    by simp
next
  show "(\<exists>c\<in>set (filterConds filters). condColumn c = ''is_qualified'')
        \<longleftrightarrow> get filters ''is_qualified'' \<noteq> JUndefined"
  proof
    assume "\<exists>c\<in>set (filterConds filters). condColumn c = ''is_qualified''"
    then obtain c where "c \<in> set (fieldConds ''is_qualified'' (get filters ''is_qualified''))"
      using filterConds_column by metis
    then show "get filters ''is_qualified'' \<noteq> JUndefined"
      by (auto simp: fieldConds_undefined)
  next
    assume d: "get filters ''is_qualified'' \<noteq> JUndefined"
    then have "Equals ''is_qualified'' (JNum (if truthy (get filters ''is_qualified'') then 1 else 0))
        \<in> set (fieldConds ''is_qualified'' (get filters ''is_qualified''))"
      by (simp add: fieldConds_def booleanConds_def)
    then have "Equals ''is_qualified'' (JNum (if truthy (get filters ''is_qualified'') then 1 else 0))
        \<in> set (filterConds filters)"
      using d by (intro fieldConds_in_filterConds get_defined_truthy [OF d]) (simp_all add: fieldNames_def)
    then show "\<exists>c\<in>set (filterConds filters). condColumn c = ''is_qualified''"
      by force
  qed
qed


theorem qualified_presence_adds_clause_witness:
  "get (JObj exEntries) ''is_qualified'' = JBool False
   \<and> buildWhereClause (JObj exEntries) (JNum 1)
       = map_option (\<lambda>a. (fst a @ '' AND is_qualified = ?'', snd a @ [JNum 0]))
           (buildWhereClause (JObj (AList.delete ''is_qualified'' exEntries)) (JNum 1))
   \<and> map_of [(''score'', JNum 3)] ''is_qualified'' = None
   \<and> buildWhereClause (JObj [(''score'', JNum 3)]) (JNum 1)
       = buildWhereClause (JObj (AList.delete ''is_qualified'' [(''score'', JNum 3)])) (JNum 1)
   \<and> (\<exists>c\<in>set (filterConds (JObj exEntries)). condColumn c = ''is_qualified'')"
proof -
  have q: "get (JObj exEntries) ''is_qualified'' = JBool False"
    and n: "map_of [(''score'', JNum 3)] ''is_qualified'' = (None :: jsval option)"
    by (simp_all add: exEntries_def)
  note t = qualified_presence_adds_clause [where kvs = exEntries and uid = "JNum 1"
      and filters = "JObj exEntries"]
  note u = qualified_presence_adds_clause [where kvs = "[(''score'', JNum 3)]" and uid = "JNum 1"
      and filters = JNull]
  from t q have "buildWhereClause (JObj exEntries) (JNum 1)
       = map_option (\<lambda>a. (fst a @ '' AND is_qualified = ?'', snd a @ [JNum 0]))
           (buildWhereClause (JObj (AList.delete ''is_qualified'' exEntries)) (JNum 1))"
    by simp
  moreover from t q have "\<exists>c\<in>set (filterConds (JObj exEntries)). condColumn c = ''is_qualified''"
    by simp
  moreover from u n have "buildWhereClause (JObj [(''score'', JNum 3)]) (JNum 1)
       = buildWhereClause (JObj (AList.delete ''is_qualified'' [(''score'', JNum 3)])) (JNum 1)"
    by blast
  ultimately show ?thesis
    using q n by blast
qed

subsection \<open>The store reads the text as the conditions\<close>

lemma stripPrefix_append: "stripPrefix p (p @ r) = Some r"
  by (induction p) auto

lemma take_col: "colName col \<Longrightarrow> takeWhile identChar (col @ CHR '' '' # r) = col"
  by (simp add: colName_def takeWhile_append2 identChar_def)

lemma drop_col: "colName col \<Longrightarrow> dropWhile identChar (col @ CHR '' '' # r) = CHR '' '' # r"
  by (simp add: colName_def dropWhile_append2 identChar_def)

lemma take_col_paren: "colName col \<Longrightarrow> takeWhile identChar (col @ CHR '')'' # r) = col"
  by (simp add: colName_def takeWhile_append2 identChar_def)

lemma drop_col_paren: "colName col \<Longrightarrow> dropWhile identChar (col @ CHR '')'' # r) = CHR '')'' # r"
  by (simp add: colName_def dropWhile_append2 identChar_def)

lemma colName_nonempty: "colName col \<Longrightarrow> (col = []) = False"
  by (simp add: colName_def)

lemma not_date: "colName col \<Longrightarrow> stripPrefix ''DATE('' (col @ r) = None"
  by (cases col) (auto simp: colName_def identChar_def)

lemma readMore_placeholders:
  "readMore (concat (map (\<lambda>_. '',?'') vs) @ CHR '')'' # r) = Some (length vs, r)"
  by (induction vs) (cases r; simp)+

lemma join_placeholders:
  "join '','' (map (\<lambda>_. ''?'') (v # vs)) = CHR ''?'' # concat (map (\<lambda>_. '',?'') vs)"
  by (induction vs arbitrary: v) simp_all

lemma readList_placeholders:
  "readList (join '','' (map (\<lambda>_. ''?'') vs) @ CHR '')'' # r) = Some (length vs, r)"
proof (cases vs)
  case Nil
  then show ?thesis by simp
next
  case (Cons v ws)
  show ?thesis
    unfolding Cons join_placeholders
    by (simp add: readMore_placeholders)
qed

lemma readCond_sql:
  assumes "colName (condColumn c)"
  shows "readCond (sql c @ r) (binds c @ ps) = Some (c, r, ps)"
proof (cases c)
  case (Equals col v)
  with assms show ?thesis
    by (simp add: readCond_def not_date take_col drop_col takeParams_def colName_nonempty)
next
  case (Like col v)
  with assms show ?thesis
    by (simp add: readCond_def not_date take_col drop_col takeParams_def colName_nonempty)
next
  case (InList col vs)
  with assms show ?thesis
    by (simp add: readCond_def not_date take_col drop_col takeParams_def colName_nonempty
        readList_placeholders)
next
  case (Greater col v)
  with assms show ?thesis
    by (simp add: readCond_def not_date take_col drop_col takeParams_def colName_nonempty)
next
  case (Less col v)
  with assms show ?thesis
    by (simp add: readCond_def not_date take_col drop_col takeParams_def colName_nonempty)
next
  case (Between col lo hi)
  with assms show ?thesis
    by (simp add: readCond_def not_date take_col drop_col takeParams_def colName_nonempty)
next
  case (OnDate col v)
  with assms show ?thesis
    by (simp add: readCond_def take_col_paren drop_col_paren takeParams_def colName_nonempty)
qed


lemma readConds_render:
  assumes "\<forall>c\<in>set (c0 # cs). colName (condColumn c)"
    and "stripPrefix '' AND '' r = None"
    and "length cs < fuel"
  shows "readConds fuel (sql c0 @ concat (map (\<lambda>c. '' AND '' @ sql c) cs) @ r)
           (binds c0 @ concat (map binds cs) @ ps) = Some (c0 # cs, r, ps)"
  using assms
proof (induction cs arbitrary: c0 fuel)
  case Nil
  then obtain k where "fuel = Suc k"
    by (cases fuel) auto
  with Nil show ?case
    by (simp add: readCond_sql)
next
  case (Cons c1 cs)
  then obtain k where k: "fuel = Suc k" "length cs < k"
    by (cases fuel) auto
  have r0: "readCond (sql c0 @ '' AND '' @ sql c1 @ concat (map (\<lambda>c. '' AND '' @ sql c) cs) @ r)
              (binds c0 @ binds c1 @ concat (map binds cs) @ ps)
            = Some (c0, '' AND '' @ sql c1 @ concat (map (\<lambda>c. '' AND '' @ sql c) cs) @ r,
                binds c1 @ concat (map binds cs) @ ps)"
    using Cons.prems(1) by (intro readCond_sql) simp
  have ih: "readConds k (sql c1 @ concat (map (\<lambda>c. '' AND '' @ sql c) cs) @ r)
              (binds c1 @ concat (map binds cs) @ ps) = Some (c1 # cs, r, ps)"
    using Cons.prems(1,2) k(2) by (intro Cons.IH) simp_all
  have sp: "stripPrefix '' AND '' ('' AND '' @ sql c1 @ concat (map (\<lambda>c. '' AND '' @ sql c) cs) @ r)
      = Some (sql c1 @ concat (map (\<lambda>c. '' AND '' @ sql c) cs) @ r)"
    by (rule stripPrefix_append)
  have "readConds (Suc k) (sql c0 @ '' AND '' @ sql c1 @ concat (map (\<lambda>c. '' AND '' @ sql c) cs) @ r)
           (binds c0 @ binds c1 @ concat (map binds cs) @ ps) = Some (c0 # c1 # cs, r, ps)"
    unfolding readConds.simps r0 by (simp only: sp ih option.case prod.case)
  then show ?case
    unfolding k(1) by simp
qed

lemma render_length: "length cs < length (sql c0 @ concat (map (\<lambda>c. '' AND '' @ sql c) cs) @ r)"
  if "sql c0 \<noteq> []"
  using that by (induction cs) (auto simp: length_greater_0_conv [symmetric] simp del: length_greater_0_conv)

lemma sql_nonempty: "sql c \<noteq> []"
  by (cases c) simp_all

lemma readWhere_render:
  assumes "\<forall>c\<in>set (c0 # cs). colName (condColumn c)" "stripPrefix '' AND '' r = None"
  shows "readWhere (''WHERE '' @ sql c0 @ concat (map (\<lambda>c. '' AND '' @ sql c) cs) @ r)
           (binds c0 @ concat (map binds cs) @ ps) = Some (c0 # cs, r, ps)"
proof -
  have "stripPrefix ''WHERE '' (''WHERE '' @ sql c0 @ concat (map (\<lambda>c. '' AND '' @ sql c) cs) @ r)
      = Some (sql c0 @ concat (map (\<lambda>c. '' AND '' @ sql c) cs) @ r)"
    by (rule stripPrefix_append)
  then show ?thesis
    unfolding readWhere_def
    by (simp only: option.case readConds_render [OF assms render_length [OF sql_nonempty]])
qed

lemma fieldNames_colName: "n \<in> set fieldNames \<Longrightarrow> colName n"
  by (auto simp: fieldNames_def colName_def identChar_def)

lemma user_id_colName: "colName ''user_id''"
  by (simp add: colName_def identChar_def)

lemma conds_colName: "\<forall>c\<in>set (Equals ''user_id'' uid # filterConds filters). colName (condColumn c)"
  using filterConds_column fieldNames_colName user_id_colName by auto

lemma buildWhereClause_render:
  assumes "buildWhereClause filters uid = Some (w, p)"
  shows "w @ r
     = ''WHERE '' @ sql (Equals ''user_id'' uid)
         @ concat (map (\<lambda>c. '' AND '' @ sql c) (filterConds filters)) @ r"
    and "p @ ps
     = binds (Equals ''user_id'' uid) @ concat (map binds (filterConds filters)) @ ps"
  using assms by (auto simp add: buildWhereClause_Some addConds_def)

lemma readWhere_build:
  assumes "buildWhereClause filters uid = Some (w, p)" "stripPrefix '' AND '' r = None"
  shows "readWhere (w @ r) (p @ ps) = Some (Equals ''user_id'' uid # filterConds filters, r, ps)"
  unfolding buildWhereClause_render [OF assms(1)]
  by (rule readWhere_render [OF conds_colName assms(2)])

lemma countStatement_build:
  assumes "buildWhereClause filters uid = Some (w, p)"
  shows "countStatement (''SELECT COUNT(*) as total FROM leads '' @ w) p
   = Some (Equals ''user_id'' uid # filterConds filters)"
proof -
  have "readWhere (w @ []) (p @ []) = Some (Equals ''user_id'' uid # filterConds filters, [], [])"
    by (rule readWhere_build [OF assms]) simp
  then show ?thesis
    by (simp add: countStatement_def stripPrefix_append)
qed

lemma rowStatement_build:
  assumes "buildWhereClause filters uid = Some (w, p)"
  shows "rowStatement (''SELECT * FROM leads '' @ w @ '' ORDER BY created_at DESC LIMIT ? OFFSET ?'')
     (p @ [JNum n, JNum k])
   = (if int64 n \<and> int64 k then Some (Equals ''user_id'' uid # filterConds filters, n, k)
      else None)"
proof -
  have "readWhere (w @ '' ORDER BY created_at DESC LIMIT ? OFFSET ?'') (p @ [JNum n, JNum k])
      = Some (Equals ''user_id'' uid # filterConds filters,
              '' ORDER BY created_at DESC LIMIT ? OFFSET ?'', [JNum n, JNum k])"
    by (rule readWhere_build [OF assms]) simp
  then show ?thesis
    by (simp add: rowStatement_def stripPrefix_append)
qed

lemma rowStatement_mismatch:
  assumes "buildWhereClause filters uid = Some (w, p)" "\<not> (\<exists>n k. x = JNum n \<and> y = JNum k)"
  shows "rowStatement (''SELECT * FROM leads '' @ w @ '' ORDER BY created_at DESC LIMIT ? OFFSET ?'')
     (p @ [x, y]) = None"
proof -
  have "readWhere (w @ '' ORDER BY created_at DESC LIMIT ? OFFSET ?'') (p @ [x, y])
      = Some (Equals ''user_id'' uid # filterConds filters,
              '' ORDER BY created_at DESC LIMIT ? OFFSET ?'', [x, y])"
    by (rule readWhere_build [OF assms(1)]) simp
  then show ?thesis
    using assms(2) by (cases x; cases y) (simp_all add: rowStatement_def stripPrefix_append)
qed

text \<open>
  C10. For every filter document and user id, \<^verbatim>\<open>buildWhereClause\<close> either throws (the
  value of a \<^verbatim>\<open>contains\<close> does not print) or returns a text that has exactly as many
  \<^verbatim>\<open>?\<close> as the list of bound values has elements. The order matches too: the text is
  the tenant fragment followed by the fragments of the conditions, the bound values are
  the user id followed by the bound values of the same conditions in the same order,
  and each fragment has one placeholder per value it binds (one per list element for
  \<^verbatim>\<open>in\<close>, two for \<^verbatim>\<open>between\<close>); read from left to right, each placeholder taking the
  next bound value, the text gives back every condition with its own values and leaves
  no bound value over.
\<close>

theorem placeholders_match_params:
  "(throws filters \<and> buildWhereClause filters uid = None
    \<or> (\<exists>w p. buildWhereClause filters uid = Some (w, p)
          \<and> count_list w CHR ''?'' = length p
          \<and> w = ''WHERE user_id = ?'' @ concat (map (\<lambda>c. '' AND '' @ sql c) (filterConds filters))
          \<and> p = uid # concat (map binds (filterConds filters))
          \<and> readWhere w p = Some (Equals ''user_id'' uid # filterConds filters, [], [])))
   \<and> (\<forall>c\<in>set (filterConds filters). count_list (sql c) CHR ''?'' = length (binds c))"
proof -
  have b: "\<forall>c\<in>set (filterConds filters). balanced c"
    by (simp add: filterConds_balanced)
  have d: "\<forall>c\<in>set (filterConds filters). count_list (sql c) CHR ''?'' = length (binds c)"
    using b by (simp add: balanced_def)
  show ?thesis
  proof (cases "throws filters")
    case True
    then show ?thesis
      using d by (simp add: buildWhereClause_conds)
  next
    case False
    obtain w p where wp: "addConds (''WHERE user_id = ?'', [uid]) (filterConds filters) = (w, p)"
      by (cases "addConds (''WHERE user_id = ?'', [uid]) (filterConds filters)")
    with False have s: "buildWhereClause filters uid = Some (w, p)"
      by (simp add: buildWhereClause_conds)
    have wq: "w = ''WHERE user_id = ?'' @ concat (map (\<lambda>c. '' AND '' @ sql c) (filterConds filters))"
      "p = uid # concat (map binds (filterConds filters))"
      using wp by (auto simp add: addConds_def)
    have "count_list (fst (addConds (''WHERE user_id = ?'', [uid]) (filterConds filters))) CHR ''?''
        = count_list (fst (''WHERE user_id = ?'', [uid])) CHR ''?''
            + length (concat (map binds (filterConds filters)))"
      by (rule addConds_count [OF b])
    then have "count_list w CHR ''?'' = 1 + length (concat (map binds (filterConds filters)))"
      unfolding wp by simp
    then have "count_list w CHR ''?'' = length p"
      unfolding wq(2) by simp
    moreover have "readWhere w p = Some (Equals ''user_id'' uid # filterConds filters, [], [])"
      using readWhere_build [OF s, of "[]" "[]"] by simp
    ultimately show ?thesis
      using s d wq by blast
  qed
qed

theorem placeholders_match_params_witness:
  "InList ''status'' [JStr ''new'', JStr ''won''] \<in> set (filterConds exFilters)
   \<and> count_list (sql (InList ''status'' [JStr ''new'', JStr ''won''])) CHR ''?''
       = length (binds (InList ''status'' [JStr ''new'', JStr ''won'']))
   \<and> Between ''score'' (JNum 10) (JNum 60) \<in> set (filterConds exFilters)
   \<and> count_list (sql (Between ''score'' (JNum 10) (JNum 60))) CHR ''?''
       = length (binds (Between ''score'' (JNum 10) (JNum 60)))
   \<and> (\<exists>w p. buildWhereClause exFilters (JNum 1) = Some (w, p)
         \<and> count_list w CHR ''?'' = 8 \<and> length p = 8)"
proof -
  have m: "InList ''status'' [JStr ''new'', JStr ''won''] \<in> set (filterConds exFilters)"
    "Between ''score'' (JNum 10) (JNum 60) \<in> set (filterConds exFilters)"
    by (simp_all add: conds_defs exFilters_def exEntries_def)
  have nt: "buildWhereClause exFilters (JNum 1) \<noteq> None"
    by (simp add: buildWhereClause_conds throws_def containsThrows_def exFilters_def exEntries_def)
  from placeholders_match_params [of exFilters "JNum 1"] nt
  obtain w p where s: "buildWhereClause exFilters (JNum 1) = Some (w, p)"
    and a: "count_list w CHR ''?'' = length p"
    and p: "p = JNum 1 # concat (map binds (filterConds exFilters))"
    and d: "\<forall>c\<in>set (filterConds exFilters). count_list (sql c) CHR ''?'' = length (binds c)"
    by blast
  have n: "length p = 8"
    unfolding p by (simp add: conds_defs exFilters_def exEntries_def printed_def)
  with a have "count_list w CHR ''?'' = 8"
    by (simp only:)
  with s n have "\<exists>w p. buildWhereClause exFilters (JNum 1) = Some (w, p)
         \<and> count_list w CHR ''?'' = 8 \<and> length p = 8"
    by blast
  with m d [rule_format, OF m(1)] d [rule_format, OF m(2)] show ?thesis
    by blast
qed

subsection \<open>The list route\<close>

lemma set_insertDesc: "set (insertDesc e x ys) = insert x (set ys)"
  by (induction ys) auto

lemma set_foldl_insertDesc:
  "set (foldl (\<lambda>sorted r. insertDesc e r sorted) acc rows) = set acc \<union> set rows"
  by (induction rows arbitrary: acc) (auto simp: set_insertDesc)

lemma set_orderByCreatedDesc: "set (orderByCreatedDesc e rows) = set rows"
  by (simp add: orderByCreatedDesc_def set_foldl_insertDesc)

lemma set_limitOffset: "set (limitOffset n k rows) \<subseteq> set rows"
  unfolding limitOffset_def Let_def
  by (auto dest: in_set_takeD in_set_dropD)

lemma selectWhere_holds: "r \<in> set (selectWhere e cs rows) \<Longrightarrow> c \<in> set cs \<Longrightarrow> holds e r c"
  by (auto simp: selectWhere_def list_all_iff)

lemma selectWhere_subset: "set (selectWhere e cs rows) \<subseteq> set rows"
  by (auto simp: selectWhere_def)

lemma ceiling_div: "\<lceil>real_of_int t / real_of_int n\<rceil> = - (- t div n)"
  by (simp add: ceiling_divide_eq_div)

lemma ceiling_bounds:
  assumes "0 < n"
  shows "(\<lceil>real_of_int t / real_of_int n\<rceil> - 1) * n < t
       \<and> t \<le> \<lceil>real_of_int t / real_of_int n\<rceil> * n"
proof -
  let ?x = "real_of_int t / real_of_int n"
  obtain c where c: "c = \<lceil>?x\<rceil>" by simp
  have n: "0 < real_of_int n" using assms by simp
  have "real_of_int c - 1 < ?x" "?x \<le> real_of_int c"
    unfolding c by linarith+
  then have "(real_of_int c - 1) * real_of_int n < real_of_int t"
    "real_of_int t \<le> real_of_int c * real_of_int n"
    using n by (simp_all add: pos_less_divide_eq pos_divide_le_eq)
  then have "real_of_int ((c - 1) * n) < real_of_int t"
    "real_of_int t \<le> real_of_int (c * n)"
    by simp_all
  then have "(c - 1) * n < t \<and> t \<le> c * n"
    by (simp only: of_int_less_iff of_int_le_iff)
  then show ?thesis
    unfolding c .
qed

text \<open>The number of bits of an integer, and that an integer of at most 53 bits is a
  double.\<close>

lemma bits_le: "n < 2 ^ k \<Longrightarrow> bits n \<le> k"
proof (induction k arbitrary: n)
  case 0
  then have "n \<le> 0" by simp
  then show ?case
    by (subst bits.simps) simp
next
  case (Suc k)
  then have "n div 2 < 2 ^ k"
    by simp
  from Suc.IH [OF this] show ?case
    by (subst bits.simps) simp
qed

lemma bits_eq: "2 ^ k \<le> n \<Longrightarrow> n < 2 ^ Suc k \<Longrightarrow> bits n = Suc k"
proof (induction k arbitrary: n)
  case 0
  then have "n = 1" by simp
  then show ?case
    by (simp add: bits.simps [of 1] bits.simps [of 0])
next
  case (Suc k)
  then have "2 ^ k \<le> n div 2" "n div 2 < 2 ^ Suc k" "\<not> n \<le> 0"
    by auto
  from Suc.IH [OF this(1,2)] this(3) show ?case
    by (subst bits.simps) simp
qed

lemma nearest_one: "nearest m 1 = m"
  by (simp add: nearest_def)

lemma toDouble_exact:
  assumes "\<bar>n\<bar> < 2 ^ 53"
  shows "toDouble n = Finite n"
proof -
  have b: "bits \<bar>n\<bar> - 53 = 0"
    using bits_le [OF assms] by simp
  have "(2::int) ^ 53 \<le> 2 ^ 1024"
    by (rule power_increasing) simp_all
  with assms have "\<not> 2 ^ 1024 \<le> \<bar>n\<bar>"
    by linarith
  then show ?thesis
    unfolding toDouble_def Let_def b power_0 nearest_one mult_1_right
    by (simp only: if_False) simp
qed

lemma small_page_exact:
  assumes "1 \<le> P" "1 \<le> L" "P * L < 2 ^ 53"
  shows "toDouble P = Finite P" "toDouble (P - 1) = Finite (P - 1)"
    "toDouble ((P - 1) * L) = Finite ((P - 1) * L)" "(P - 1) * L < 2 ^ 63"
proof -
  have m: "P * 1 \<le> P * L"
    using assms(1,2) by (intro mult_left_mono) simp_all
  have o: "(P - 1) * L \<le> P * L" "0 \<le> (P - 1) * L"
    using assms(1,2) by (simp_all add: mult_right_mono)
  have "(2::int) ^ 53 \<le> 2 ^ 63"
    by (rule power_increasing) simp_all
  with o assms(3) show "(P - 1) * L < 2 ^ 63"
    by linarith
  from m assms have "\<bar>P\<bar> < 2 ^ 53" "\<bar>P - 1\<bar> < 2 ^ 53"
    by linarith+
  then show "toDouble P = Finite P" "toDouble (P - 1) = Finite (P - 1)"
    by (simp_all only: toDouble_exact)
  from o assms(3) have "\<bar>(P - 1) * L\<bar> < 2 ^ 53"
    by linarith
  then show "toDouble ((P - 1) * L) = Finite ((P - 1) * L)"
    by (rule toDouble_exact)
qed

lemma limit_valid:
  "isIntMinMax 1 100 q \<Longrightarrow>
     parseIntOr q (Finite 20) = Finite (asked q 20) \<and> 1 \<le> asked q 20 \<and> asked q 20 \<le> 100"
  by (cases q) (auto simp: toDouble_exact)

lemma page_valid:
  "isIntMin 1 q \<Longrightarrow> parseIntOr q (Finite 1) = toDouble (asked q 1) \<and> 1 \<le> asked q 1"
  by (cases q) (auto simp: toDouble_exact)

lemma numVal_JNum: "numVal x = JNum n \<longleftrightarrow> x = Finite n"
  by (cases x) auto

text \<open>What the route answers and sends once the query is valid, the filters parse and
  the predicate is built: a page when the store takes the limit and the offset for
  integers, and the 500 of the row query otherwise.\<close>

lemma getLeads_page:
  assumes "validQuery req" "parseFilters parse req = Some filters"
    and b: "buildWhereClause filters (JNum (userId req)) = Some (whereClause, params)"
    and l: "limitOf req = Finite n" and k: "offsetOf req = Finite k"
    and i: "int64 n" "int64 k"
  shows "getLeads parse e s req =
     (LeadsPage
        (limitOffset n k (orderByCreatedDesc e (pageRows e s req filters)))
        (pageOf req) (Finite n)
        (int (length (pageRows e s req filters)))
        (ceilDiv (int (length (pageRows e s req filters))) (Finite n)),
      [(''SELECT COUNT(*) as total FROM leads '' @ whereClause, params),
       (''SELECT * FROM leads '' @ whereClause @ '' ORDER BY created_at DESC LIMIT ? OFFSET ?'',
        params @ [JNum n, JNum k])])"
proof -
  have c: "countStatement (''SELECT COUNT(*) as total FROM leads '' @ whereClause) params
      = Some (tenantCond (userId req) # filterConds filters)"
    using countStatement_build [OF b] by (simp add: tenantCond_def)
  have r: "rowStatement (''SELECT * FROM leads '' @ whereClause
                   @ '' ORDER BY created_at DESC LIMIT ? OFFSET ?'') (params @ [JNum n, JNum k])
      = Some (tenantCond (userId req) # filterConds filters, n, k)"
    using rowStatement_build [OF b, of n k] i by (simp add: tenantCond_def)
  from l have l': "parseIntOr (limitParam req) (Finite 20) = Finite n"
    by (simp add: limitOf_def)
  from k l' have k': "jsTimes (minusOne (parseIntOr (pageParam req) (Finite 1))) (Finite n) = Finite k"
    by (simp add: offsetOf_def pageOf_def limitOf_def)
  show ?thesis
    using assms(1,2)
    by (simp add: getLeads_def Let_def b l' k' dbGetTotal_def dbAll_def c [simplified] r [simplified]
        pageRows_def pageOf_def)
qed

lemma getLeads_refused:
  assumes "validQuery req" "parseFilters parse req = Some filters"
    and b: "buildWhereClause filters (JNum (userId req)) = Some (whereClause, params)"
    and n: "\<not> (\<exists>n k. limitOf req = Finite n \<and> offsetOf req = Finite k \<and> int64 n \<and> int64 k)"
  shows "getLeads parse e s req =
     (Failure 500 ''Database error'' ''Failed to fetch leads'',
      [(''SELECT COUNT(*) as total FROM leads '' @ whereClause, params),
       (''SELECT * FROM leads '' @ whereClause @ '' ORDER BY created_at DESC LIMIT ? OFFSET ?'',
        params @ [numVal (limitOf req), numVal (offsetOf req)])])"
proof -
  have c: "countStatement (''SELECT COUNT(*) as total FROM leads '' @ whereClause) params
      = Some (tenantCond (userId req) # filterConds filters)"
    using countStatement_build [OF b] by (simp add: tenantCond_def)
  have r: "rowStatement (''SELECT * FROM leads '' @ whereClause
                   @ '' ORDER BY created_at DESC LIMIT ? OFFSET ?'')
             (params @ [numVal (limitOf req), numVal (offsetOf req)]) = None"
  proof (cases "\<exists>x y. numVal (limitOf req) = JNum x \<and> numVal (offsetOf req) = JNum y")
    case True
    then obtain x y where xy: "numVal (limitOf req) = JNum x" "numVal (offsetOf req) = JNum y"
      by blast
    with n have "\<not> (int64 x \<and> int64 y)"
      by (simp add: numVal_JNum)
    then show ?thesis
      unfolding xy rowStatement_build [OF b] by simp
  next
    case False
    then show ?thesis
      by (intro rowStatement_mismatch [OF b]) blast
  qed
  note r' = r [unfolded offsetOf_def limitOf_def pageOf_def, simplified]
  show ?thesis
    using assms(1,2)
    by (simp add: getLeads_def Let_def b dbGetTotal_def dbAll_def c [simplified] r'
        offsetOf_def limitOf_def pageOf_def)
qed

lemma getLeads_throws:
  assumes "validQuery req" "parseFilters parse req = Some filters"
    and "buildWhereClause filters (JNum (userId req)) = None"
  shows "getLeads parse e s req = (Failure 500 ''Server error'' ''Failed to fetch leads'', [])"
  using assms by (simp add: getLeads_def Let_def)

lemma getLeads_statements:
  assumes "validQuery req" "parseFilters parse req = Some filters"
    and b: "buildWhereClause filters (JNum (userId req)) = Some (whereClause, params)"
  shows "snd (getLeads parse e s req) =
      [(''SELECT COUNT(*) as total FROM leads '' @ whereClause, params),
       (''SELECT * FROM leads '' @ whereClause @ '' ORDER BY created_at DESC LIMIT ? OFFSET ?'',
        params @ [numVal (limitOf req), numVal (offsetOf req)])]"
proof (cases "\<exists>n k. limitOf req = Finite n \<and> offsetOf req = Finite k \<and> int64 n \<and> int64 k")
  case True
  then obtain n k where "limitOf req = Finite n" "offsetOf req = Finite k" "int64 n" "int64 k"
    by blast
  then show ?thesis
    using getLeads_page [OF assms, of n k e s] by simp
next
  case False
  then show ?thesis
    using getLeads_refused [OF assms, of e s] by simp
qed

lemma getLeads_unsent:
  assumes "\<not> validQuery req \<or> parseFilters parse req = None"
  shows "snd (getLeads parse e s req) = []"
  using assms by (auto simp: getLeads_def Let_def)

text \<open>The page of a request whose numbers are doubles as they are.\<close>

lemma getLeads_exact:
  assumes v: "validQuery req" and f: "parseFilters parse req = Some filters"
    and t: "\<not> throws filters"
    and d: "toDouble (asked (pageParam req) 1) = Finite (asked (pageParam req) 1)"
      "toDouble (asked (pageParam req) 1 - 1) = Finite (asked (pageParam req) 1 - 1)"
      "toDouble ((asked (pageParam req) 1 - 1) * asked (limitParam req) 20)
         = Finite ((asked (pageParam req) 1 - 1) * asked (limitParam req) 20)"
      "(asked (pageParam req) 1 - 1) * asked (limitParam req) 20 < 2 ^ 63"
  shows "getLeads parse e s req =
     (LeadsPage
        (limitOffset (asked (limitParam req) 20)
           ((asked (pageParam req) 1 - 1) * asked (limitParam req) 20)
           (orderByCreatedDesc e (pageRows e s req filters)))
        (Finite (asked (pageParam req) 1)) (Finite (asked (limitParam req) 20))
        (int (length (pageRows e s req filters)))
        (Finite \<lceil>real_of_int (int (length (pageRows e s req filters)))
                  / real_of_int (asked (limitParam req) 20)\<rceil>),
      [(''SELECT COUNT(*) as total FROM leads ''
          @ fst (addConds (''WHERE user_id = ?'', [JNum (userId req)]) (filterConds filters)),
        snd (addConds (''WHERE user_id = ?'', [JNum (userId req)]) (filterConds filters))),
       (''SELECT * FROM leads ''
          @ fst (addConds (''WHERE user_id = ?'', [JNum (userId req)]) (filterConds filters))
          @ '' ORDER BY created_at DESC LIMIT ? OFFSET ?'',
        snd (addConds (''WHERE user_id = ?'', [JNum (userId req)]) (filterConds filters))
          @ [JNum (asked (limitParam req) 20),
             JNum ((asked (pageParam req) 1 - 1) * asked (limitParam req) 20)])])"
proof -
  let ?P = "asked (pageParam req) 1"
  let ?L = "asked (limitParam req) 20"
  let ?a = "addConds (''WHERE user_id = ?'', [JNum (userId req)]) (filterConds filters)"
  from v have L: "limitOf req = Finite ?L" "1 \<le> ?L" "?L \<le> 100"
    using limit_valid [of "limitParam req"] by (simp_all add: validQuery_def limitOf_def)
  from v have P: "pageOf req = Finite ?P" "1 \<le> ?P"
    using page_valid [of "pageParam req"] d(1) by (simp_all add: validQuery_def pageOf_def)
  have o: "offsetOf req = Finite ((?P - 1) * ?L)"
    by (simp add: offsetOf_def P(1) L(1) d(2,3))
  have "0 \<le> (?P - 1) * ?L"
    using P(2) L(2) by simp
  with d(4) have i: "int64 ?L" "int64 ((?P - 1) * ?L)"
    using L(2,3) by (simp_all add: int64_def)
  have b: "buildWhereClause filters (JNum (userId req)) = Some (fst ?a, snd ?a)"
    using t by (simp add: buildWhereClause_conds)
  have nz: "?L \<noteq> 0"
    using L(2) by simp
  show ?thesis
    unfolding getLeads_page [OF v f b L(1) o i] P(1)
    using nz by simp
qed

lemma getLeads_cases:
  "getLeads parse e s req = (resp, sent) \<Longrightarrow>
     (\<not> validQuery req \<and> resp = ValidationError \<and> sent = [])
   \<or> (validQuery req \<and> parseFilters parse req = None
        \<and> resp = Failure 400 ''Invalid filters'' ''Filters must be valid JSON'' \<and> sent = [])
   \<or> (validQuery req \<and> (\<exists>filters. parseFilters parse req = Some filters))"
  by (cases "validQuery req"; cases "parseFilters parse req")
     (auto simp: getLeads_def Let_def split: prod.splits)

lemma pageRows_tenant: "r \<in> set (pageRows e s req filters) \<Longrightarrow> user_id r = userId req"
  by (auto simp: pageRows_def tenantCond_def column_def
      dest: selectWhere_holds [where c = "Equals ''user_id'' (JNum (userId req))"])

lemma page_rows_selected:
  assumes g: "getLeads parse e s req = (LeadsPage rows p l t tp, sent)" and r: "r \<in> set rows"
  shows "\<exists>filters. validQuery req \<and> parseFilters parse req = Some filters
            \<and> r \<in> set (pageRows e s req filters)"
proof -
  from getLeads_cases [OF g] obtain filters where v: "validQuery req"
    and f: "parseFilters parse req = Some filters"
    by auto
  from g getLeads_throws [OF v f, of e s]
  obtain whereClause params
    where b: "buildWhereClause filters (JNum (userId req)) = Some (whereClause, params)"
    by (cases "buildWhereClause filters (JNum (userId req))") auto
  from g getLeads_refused [OF v f b, of e s]
  obtain n k where "limitOf req = Finite n" "offsetOf req = Finite k" "int64 n" "int64 k"
    by auto
  from g getLeads_page [OF v f b this, of e s]
  have "rows = limitOffset n k (orderByCreatedDesc e (pageRows e s req filters))"
    by auto
  with r have "r \<in> set (orderByCreatedDesc e (pageRows e s req filters))"
    using set_limitOffset by blast
  then have "r \<in> set (pageRows e s req filters)"
    by (simp add: set_orderByCreatedDesc)
  with v f show ?thesis by blast
qed

lemmas ex_defs =
  pageRows_def tenantCond_def selectWhere_def addConds_def conds_defs ceiling_div
  orderByCreatedDesc_def limitOffset_def column_def exStore_def exLeadA_def exLeadB_def
  exLeadC_def exAttrs_def

lemma ex_listReq: "validQuery exListReq" "parseFilters exParse exListReq = Some (JObj [])"
  "\<not> throws (JObj [])"
  "buildWhereClause (JObj []) (JNum (userId exListReq)) = Some (''WHERE user_id = ?'', [JNum 1])"
  "limitOf exListReq = Finite 10" "offsetOf exListReq = Finite 0"
  by (simp_all add: validQuery_def parseFilters_def exListReq_def exParse_def exScoreText_def
      exThrowText_def buildWhereClause_conds addConds_def conds_defs throws_def
      containsThrows_def limitOf_def offsetOf_def pageOf_def toDouble_exact)

lemma ex_getLeads:
  "getLeads exParse exEngine exStore exListReq =
     (LeadsPage [exLeadC, exLeadA] (Finite 1) (Finite 10) 2 (Finite 1),
      [(''SELECT COUNT(*) as total FROM leads WHERE user_id = ?'', [JNum 1]),
       (''SELECT * FROM leads WHERE user_id = ? ORDER BY created_at DESC LIMIT ? OFFSET ?'',
        [JNum 1, JNum 10, JNum 0])])"
proof -
  have "1 \<le> asked (pageParam exListReq) 1" "1 \<le> asked (limitParam exListReq) 20"
    "asked (pageParam exListReq) 1 * asked (limitParam exListReq) 20 < 2 ^ 53"
    by (simp_all add: exListReq_def)
  note d = small_page_exact [OF this]
  show ?thesis
    unfolding getLeads_exact [OF ex_listReq(1,2,3) d] ceiling_div
    by (simp add: ex_defs exListReq_def)
qed

text \<open>
  C1. For every filter document (\<^verbatim>\<open>null\<close>, empty, or one that names \<^verbatim>\<open>user_id\<close>: the
  document is arbitrary) and every user id, \<^verbatim>\<open>buildWhereClause\<close> either throws or
  returns a text that begins with \<^verbatim>\<open>WHERE user_id = ?\<close>, followed by nothing or by
  \<^verbatim>\<open> AND \<close> and further conditions, and bound values of which the first is the user
  id. Hence every row of a page that the list route answers, from a store that answers
  by the text and the bound values it is sent, is a row of the store whose \<^verbatim>\<open>user_id\<close>
  is the caller's: a request by tenant A never returns a row of another tenant B,
  whatever the filter document says.
\<close>

theorem tenant_scope_first:
  "(throws filters \<and> buildWhereClause filters uid = None
    \<or> (\<exists>rest others.
          buildWhereClause filters uid = Some (''WHERE user_id = ?'' @ rest, uid # others)
        \<and> (rest = [] \<or> (\<exists>more. rest = '' AND '' @ more))))
   \<and> (\<forall>rows p l t tp sent.
         getLeads parse e s req = (LeadsPage rows p l t tp, sent)
           \<longrightarrow> (\<forall>r\<in>set rows. r \<in> set (leads s) \<and> user_id r = userId req))"
proof (intro conjI allI impI ballI)
  show "throws filters \<and> buildWhereClause filters uid = None
    \<or> (\<exists>rest others.
          buildWhereClause filters uid = Some (''WHERE user_id = ?'' @ rest, uid # others)
        \<and> (rest = [] \<or> (\<exists>more. rest = '' AND '' @ more)))"
    by (cases "filterConds filters") (simp_all add: buildWhereClause_conds addConds_def)
next
  fix rows p l t tp sent r
  assume "getLeads parse e s req = (LeadsPage rows p l t tp, sent)" and "r \<in> set rows"
  then obtain fd where "r \<in> set (pageRows e s req fd)"
    using page_rows_selected by blast
  then show "r \<in> set (leads s)" "user_id r = userId req"
    using selectWhere_subset by (auto simp: pageRows_tenant pageRows_def)
qed

theorem tenant_scope_first_witness:
  "getLeads exParse exEngine exStore exListReq
     = (LeadsPage [exLeadC, exLeadA] (Finite 1) (Finite 10) 2 (Finite 1),
        [(''SELECT COUNT(*) as total FROM leads WHERE user_id = ?'', [JNum 1]),
         (''SELECT * FROM leads WHERE user_id = ? ORDER BY created_at DESC LIMIT ? OFFSET ?'',
          [JNum 1, JNum 10, JNum 0])])
   \<and> exLeadB \<in> set (leads exStore) \<and> user_id exLeadB = 2 \<and> userId exListReq = 1
   \<and> exLeadC \<in> set (leads exStore) \<and> user_id exLeadC = userId exListReq
   \<and> exLeadA \<in> set (leads exStore) \<and> user_id exLeadA = userId exListReq"
proof -
  note t = tenant_scope_first [where parse = exParse and e = exEngine and s = exStore
      and req = exListReq and filters = JNull and uid = JNull]
  from t ex_getLeads
  have "\<forall>r\<in>set [exLeadC, exLeadA]. r \<in> set (leads exStore) \<and> user_id r = userId exListReq"
    by blast
  then show ?thesis
    using ex_getLeads by (simp add: exStore_def exLeadB_def exListReq_def)
qed

text \<open>An offset past the last row gives no row, without counting up to it.\<close>

lemma limitOffset_code [code]:
  "limitOffset n k rows =
     (let rest = (if int (length rows) \<le> k then [] else drop (nat k) rows) in
      if n < 0 then rest else if int (length rest) \<le> n then rest else take (nat n) rest)"
  by (simp add: limitOffset_def Let_def) arith

lemma empty_page: "limitOffset n k (orderByCreatedDesc e []) = []"
  by (simp add: orderByCreatedDesc_def limitOffset_def)

lemma ex_noLeads: "validQuery exNoLeadsReq" "parseFilters parse exNoLeadsReq = Some JNull"
  "\<not> throws JNull"
  "asked (pageParam exNoLeadsReq) 1 = 3" "asked (limitParam exNoLeadsReq) 20 = 20"
  "pageRows exEngine exStore exNoLeadsReq JNull = []"
  by (simp_all add: validQuery_def parseFilters_def exNoLeadsReq_def pageRows_def tenantCond_def
      selectWhere_def conds_defs column_def exStore_def exLeadA_def exLeadB_def exLeadC_def
      throws_def)

lemma ex_secondPage: "validQuery exSecondPageReq"
  "parseFilters parse exSecondPageReq = Some JNull"
  "asked (pageParam exSecondPageReq) 1 = 2" "asked (limitParam exSecondPageReq) 20 = 1"
  "pageRows exEngine exStore exSecondPageReq JNull = [exLeadA, exLeadC]"
  "orderByCreatedDesc exEngine [exLeadA, exLeadC] = [exLeadC, exLeadA]"
  by (simp_all add: validQuery_def parseFilters_def exSecondPageReq_def pageRows_def
      tenantCond_def selectWhere_def conds_defs column_def exStore_def exLeadA_def exLeadB_def
      exLeadC_def exAttrs_def orderByCreatedDesc_def)

lemma ex_largePage: "validQuery exLargePageReq" "parseFilters parse exLargePageReq = Some JNull"
  "asked (pageParam exLargePageReq) 1 = 1000000000000000000"
  "asked (limitParam exLargePageReq) 20 = 10"
  "pageRows exEngine exStore exLargePageReq JNull = []"
  "buildWhereClause JNull (JNum (userId exLargePageReq)) = Some (''WHERE user_id = ?'', [JNum 9])"
  by (simp_all add: validQuery_def parseFilters_def exLargePageReq_def pageRows_def tenantCond_def
      selectWhere_def conds_defs column_def exStore_def exLeadA_def exLeadB_def exLeadC_def
      buildWhereClause_def)

lemma ex_oddPage: "validQuery exOddPageReq" "parseFilters parse exOddPageReq = Some JNull"
  "asked (pageParam exOddPageReq) 1 = 9007199254740993"
  "pageRows exEngine exStore exOddPageReq JNull = []"
  "buildWhereClause JNull (JNum (userId exOddPageReq)) = Some (''WHERE user_id = ?'', [JNum 9])"
  by (simp_all add: validQuery_def parseFilters_def exOddPageReq_def pageRows_def tenantCond_def
      selectWhere_def conds_defs column_def exStore_def exLeadA_def exLeadB_def exLeadC_def
      buildWhereClause_def)

lemma ex_throw: "validQuery exThrowReq" "parseFilters exParse exThrowReq = Some exThrowFilter"
  "throws exThrowFilter" "buildWhereClause exThrowFilter (JNum (userId exThrowReq)) = None"
  by (simp_all add: validQuery_def parseFilters_def exThrowReq_def exParse_def exScoreText_def
      exThrowText_def exThrowFilter_def buildWhereClause_conds throws_def containsThrows_def)

text \<open>The doubles of the two large pages: \<open>10^18\<close> is a double, \<open>10^18 - 1\<close> is not and
  rounds back to it, and ten times that is the double \<open>10^19\<close>, above \<open>2^63\<close>;
  \<open>2^53 + 1\<close> rounds to \<open>2^53\<close>, and \<open>(2^53 - 1) * 20\<close> to a multiple of 32.\<close>

lemma ex_bits:
  "bits 1000000000000000000 = 60"
  "bits 999999999999999999 = 60"
  "bits 10000000000000000000 = 64"
  "bits 9007199254740993 = 54"
  "bits 180143985094819820 = 58"
  using bits_eq [of 59 1000000000000000000] bits_eq [of 59 999999999999999999]
    bits_eq [of 63 10000000000000000000] bits_eq [of 53 9007199254740993]
    bits_eq [of 57 180143985094819820]
  by simp_all

lemma ex_doubles:
  "toDouble 1000000000000000000 = Finite 1000000000000000000"
  "toDouble 999999999999999999 = Finite 1000000000000000000"
  "toDouble 10000000000000000000 = Finite 10000000000000000000"
  "toDouble 9007199254740993 = Finite 9007199254740992"
  "toDouble 180143985094819820 = Finite 180143985094819808"
  unfolding toDouble_def Let_def
  by (simp_all add: ex_bits nearest_def)

text \<open>
  C3 as stated does not hold for every page. The page, the page minus one and the
  offset are doubles. For page \<open>10^18\<close> and limit 10 of a tenant without leads the
  offset bound to the row query is \<open>10^19\<close>, not \<open>(10^18 - 1) * 10\<close>; the store refuses
  it, being \<open>2^63\<close> or more, and the request is answered 500, not with \<open>total = 0\<close>,
  \<open>totalPages = 0\<close> and \<open>data = []\<close>. For page \<open>2^53 + 1\<close> the answer is a page, but
  the page \<open>2^53\<close>, with the offset \<open>180143985094819808\<close> instead of \<open>2^53 * 20\<close>. And
  a request whose filter document makes \<^verbatim>\<open>buildWhereClause\<close> throw is answered 500
  before anything is counted.
\<close>

theorem large_page_offset_rounded:
  "validQuery exLargePageReq \<and> parseFilters exParse exLargePageReq = Some JNull
   \<and> asked (pageParam exLargePageReq) 1 = 1000000000000000000
   \<and> asked (limitParam exLargePageReq) 20 = 10
   \<and> int (length (pageRows exEngine exStore exLargePageReq JNull)) = 0
   \<and> getLeads exParse exEngine exStore exLargePageReq
       = (Failure 500 ''Database error'' ''Failed to fetch leads'',
          [(''SELECT COUNT(*) as total FROM leads WHERE user_id = ?'', [JNum 9]),
           (''SELECT * FROM leads WHERE user_id = ? ORDER BY created_at DESC LIMIT ? OFFSET ?'',
            [JNum 9, JNum 10, JNum 10000000000000000000])])
   \<and> validQuery exOddPageReq \<and> parseFilters exParse exOddPageReq = Some JNull
   \<and> asked (pageParam exOddPageReq) 1 = 9007199254740993
   \<and> getLeads exParse exEngine exStore exOddPageReq
       = (LeadsPage [] (Finite 9007199254740992) (Finite 20) 0 (Finite 0),
          [(''SELECT COUNT(*) as total FROM leads WHERE user_id = ?'', [JNum 9]),
           (''SELECT * FROM leads WHERE user_id = ? ORDER BY created_at DESC LIMIT ? OFFSET ?'',
            [JNum 9, JNum 20, JNum 180143985094819808])])
   \<and> validQuery exThrowReq \<and> parseFilters exParse exThrowReq = Some exThrowFilter
   \<and> getLeads exParse exEngine exStore exThrowReq
       = (Failure 500 ''Server error'' ''Failed to fetch leads'', [])"
proof -
  have l: "limitOf exLargePageReq = Finite 10" "offsetOf exLargePageReq = Finite 10000000000000000000"
    by (simp_all add: limitOf_def offsetOf_def pageOf_def exLargePageReq_def toDouble_exact
        ex_doubles)
  have "\<not> (\<exists>n k. limitOf exLargePageReq = Finite n \<and> offsetOf exLargePageReq = Finite k
            \<and> int64 n \<and> int64 k)"
    by (simp add: l int64_def)
  note a = getLeads_refused [OF ex_largePage(1,2) ex_largePage(6) this,
      where parse = exParse and e = exEngine and s = exStore]
  have m: "pageOf exOddPageReq = Finite 9007199254740992" "limitOf exOddPageReq = Finite 20"
    "offsetOf exOddPageReq = Finite 180143985094819808"
    by (simp_all add: limitOf_def offsetOf_def pageOf_def exOddPageReq_def ex_doubles
        toDouble_exact)
  have i: "int64 20" "int64 180143985094819808"
    by (simp_all add: int64_def)
  note b = getLeads_page [OF ex_oddPage(1,2) ex_oddPage(5) m(2,3) i,
      where parse = exParse and e = exEngine and s = exStore]
  note c = getLeads_throws [OF ex_throw(1,2,4), where e = exEngine and s = exStore]
  show ?thesis
    unfolding a b c
    by (simp add: ex_largePage ex_oddPage ex_throw l m empty_page)
qed

text \<open>
  C3, amended. For every list request that reaches the executor (page and limit
  valid, filters parsed, predicate built without an exception), asking for page \<open>P\<close>
  at limit \<open>L\<close>, where \<open>P\<close>, \<open>P - 1\<close> and \<open>(P - 1) * L\<close> are doubles as they are (which
  they are while \<open>P * L < 2^53\<close>, lemma \<open>small_page_exact\<close>) and \<open>(P - 1) * L < 2^63\<close>:
  the response is the page \<open>P\<close> at limit \<open>L\<close>; the offset bound to the row query is
  \<open>(P - 1) * L\<close>, and the rows are those from that offset; \<open>total\<close> is the number of
  rows of the store on which the predicate holds; \<open>totalPages\<close> is \<open>\<lceil>total / L\<rceil>\<close>,
  the least number of pages of \<open>L\<close> rows that hold \<open>total\<close> rows; and when \<open>total\<close> is
  0, \<open>totalPages\<close> is 0 and \<open>data\<close> is empty.
\<close>

theorem pagination_arithmetic:
  assumes "validQuery req" "parseFilters parse req = Some filters"
    and "buildWhereClause filters (JNum (userId req)) \<noteq> None"
    and "P = asked (pageParam req) 1" "L = asked (limitParam req) 20"
    and "toDouble P = Finite P" "toDouble (P - 1) = Finite (P - 1)"
    and "toDouble ((P - 1) * L) = Finite ((P - 1) * L)" "(P - 1) * L < 2 ^ 63"
  shows "\<exists>rows T TP countQuery text params.
           getLeads parse e s req
             = (LeadsPage rows (Finite P) (Finite L) T (Finite TP),
                [countQuery, (text, params @ [JNum L, JNum ((P - 1) * L)])])
         \<and> 1 \<le> P \<and> 1 \<le> L \<and> L \<le> 100
         \<and> rows = limitOffset L ((P - 1) * L) (orderByCreatedDesc e (pageRows e s req filters))
         \<and> T = int (length (pageRows e s req filters))
         \<and> TP = \<lceil>real_of_int T / real_of_int L\<rceil>
         \<and> (TP - 1) * L < T \<and> T \<le> TP * L
         \<and> (T = 0 \<longrightarrow> TP = 0 \<and> rows = [])"
proof -
  let ?T = "int (length (pageRows e s req filters))"
  from assms(1,5) have L: "1 \<le> L" "L \<le> 100"
    using limit_valid [of "limitParam req"] by (simp_all add: validQuery_def)
  from assms(1,4) have P: "1 \<le> P"
    using page_valid [of "pageParam req"] by (simp add: validQuery_def)
  from L have b: "(\<lceil>real_of_int ?T / real_of_int L\<rceil> - 1) * L < ?T
      \<and> ?T \<le> \<lceil>real_of_int ?T / real_of_int L\<rceil> * L"
    by (intro ceiling_bounds) simp
  have z: "?T = 0 \<longrightarrow> \<lceil>real_of_int ?T / real_of_int L\<rceil> = 0
      \<and> limitOffset L ((P - 1) * L) (orderByCreatedDesc e (pageRows e s req filters)) = []"
    by (simp add: empty_page)
  have t: "\<not> throws filters"
    using assms(3) by (simp add: buildWhereClause_conds split: if_splits)
  note g = getLeads_exact [OF assms(1,2) t assms(6,7,8,9) [unfolded assms(4,5)],
      folded assms(4,5), of e s]
  show ?thesis
    unfolding g using L P b z by simp
qed

theorem pagination_arithmetic_witness:
  "validQuery exNoLeadsReq \<and> parseFilters exParse exNoLeadsReq = Some JNull
   \<and> buildWhereClause JNull (JNum (userId exNoLeadsReq)) \<noteq> None
   \<and> asked (pageParam exNoLeadsReq) 1 = 3 \<and> asked (limitParam exNoLeadsReq) 20 = 20
   \<and> toDouble 3 = Finite 3 \<and> toDouble (3 - 1) = Finite (3 - 1)
   \<and> toDouble ((3 - 1) * 20) = Finite ((3 - 1) * 20) \<and> (3 - 1) * 20 < (2::int) ^ 63
   \<and> int (length (pageRows exEngine exStore exNoLeadsReq JNull)) = 0
   \<and> getLeads exParse exEngine exStore exNoLeadsReq
       = (LeadsPage [] (Finite 3) (Finite 20) 0 (Finite 0),
          [(''SELECT COUNT(*) as total FROM leads WHERE user_id = ?'', [JNum 9]),
           (''SELECT * FROM leads WHERE user_id = ? ORDER BY created_at DESC LIMIT ? OFFSET ?'',
            [JNum 9, JNum 20, JNum 40])])
   \<and> validQuery exSecondPageReq \<and> parseFilters exParse exSecondPageReq = Some JNull
   \<and> buildWhereClause JNull (JNum (userId exSecondPageReq)) \<noteq> None
   \<and> asked (pageParam exSecondPageReq) 1 = 2 \<and> asked (limitParam exSecondPageReq) 20 = 1
   \<and> toDouble 2 = Finite 2 \<and> toDouble (2 - 1) = Finite (2 - 1)
   \<and> toDouble ((2 - 1) * 1) = Finite ((2 - 1) * 1) \<and> (2 - 1) * 1 < (2::int) ^ 63
   \<and> int (length (pageRows exEngine exStore exSecondPageReq JNull)) = 2
   \<and> getLeads exParse exEngine exStore exSecondPageReq
       = (LeadsPage [exLeadA] (Finite 2) (Finite 1) 2 (Finite 2),
          [(''SELECT COUNT(*) as total FROM leads WHERE user_id = ?'', [JNum 1]),
           (''SELECT * FROM leads WHERE user_id = ? ORDER BY created_at DESC LIMIT ? OFFSET ?'',
            [JNum 1, JNum 1, JNum 1])])"
proof -
  have d: "toDouble 3 = Finite 3" "toDouble (3 - 1) = Finite (3 - 1)"
    "toDouble ((3 - 1) * 20) = Finite ((3 - 1) * 20)" "(3 - 1) * 20 < (2::int) ^ 63"
    "toDouble 2 = Finite 2" "toDouble (2 - 1) = Finite (2 - 1)"
    "toDouble ((2 - 1) * 1) = Finite ((2 - 1) * 1)" "(2 - 1) * 1 < (2::int) ^ 63"
    by (simp_all add: toDouble_exact)
  have nb: "buildWhereClause JNull (JNum (userId exNoLeadsReq)) \<noteq> None"
    "buildWhereClause JNull (JNum (userId exSecondPageReq)) \<noteq> None"
    by (simp_all add: buildWhereClause_def)
  have "1 \<le> asked (pageParam exNoLeadsReq) 1" "1 \<le> asked (limitParam exNoLeadsReq) 20"
    "asked (pageParam exNoLeadsReq) 1 * asked (limitParam exNoLeadsReq) 20 < 2 ^ 53"
    by (simp_all add: ex_noLeads)
  note x = small_page_exact [OF this]
  have "1 \<le> asked (pageParam exSecondPageReq) 1" "1 \<le> asked (limitParam exSecondPageReq) 20"
    "asked (pageParam exSecondPageReq) 1 * asked (limitParam exSecondPageReq) 20 < 2 ^ 53"
    by (simp_all add: ex_secondPage)
  note y = small_page_exact [OF this]
  note p = ex_noLeads(2) [of exParse]
  from pagination_arithmetic [OF ex_noLeads(1) p nb(1) ex_noLeads(4,5) [symmetric] d(1-4),
      where e = exEngine and s = exStore]
  obtain rows T TP countQuery rowText params where
    g: "getLeads exParse exEngine exStore exNoLeadsReq
          = (LeadsPage rows (Finite 3) (Finite 20) T (Finite TP),
             [countQuery, (rowText, params @ [JNum 20, JNum ((3 - 1) * 20)])])"
    and v: "T = int (length (pageRows exEngine exStore exNoLeadsReq JNull))"
    and z: "T = 0 \<longrightarrow> TP = 0 \<and> rows = []"
    by blast
  from v z have r: "T = 0" "TP = 0" "rows = []"
    by (simp_all add: ex_noLeads)
  have "snd (getLeads exParse exEngine exStore exNoLeadsReq)
      = [(''SELECT COUNT(*) as total FROM leads WHERE user_id = ?'', [JNum 9]),
         (''SELECT * FROM leads WHERE user_id = ? ORDER BY created_at DESC LIMIT ? OFFSET ?'',
          [JNum 9, JNum 20, JNum 40])]"
    unfolding getLeads_exact [OF ex_noLeads(1) p ex_noLeads(3) x]
    by (simp add: exNoLeadsReq_def addConds_def conds_defs)
  with g r have first: "getLeads exParse exEngine exStore exNoLeadsReq
       = (LeadsPage [] (Finite 3) (Finite 20) 0 (Finite 0),
          [(''SELECT COUNT(*) as total FROM leads WHERE user_id = ?'', [JNum 9]),
           (''SELECT * FROM leads WHERE user_id = ? ORDER BY created_at DESC LIMIT ? OFFSET ?'',
            [JNum 9, JNum 20, JNum 40])])"
    by simp
  note q = ex_secondPage(2) [of exParse]
  from pagination_arithmetic [OF ex_secondPage(1) q nb(2) ex_secondPage(3,4) [symmetric]
      d(5-8), where e = exEngine and s = exStore]
  obtain rows' T' TP' countQuery' rowText' params' where
    g': "getLeads exParse exEngine exStore exSecondPageReq
          = (LeadsPage rows' (Finite 2) (Finite 1) T' (Finite TP'),
             [countQuery', (rowText', params' @ [JNum 1, JNum ((2 - 1) * 1)])])"
    and v': "T' = int (length (pageRows exEngine exStore exSecondPageReq JNull))"
      "TP' = \<lceil>real_of_int T' / real_of_int 1\<rceil>"
      "rows' = limitOffset 1 ((2 - 1) * 1)
                 (orderByCreatedDesc exEngine (pageRows exEngine exStore exSecondPageReq JNull))"
    by blast
  from v' have r': "T' = 2" "TP' = 2" "rows' = [exLeadA]"
    by (simp_all add: ex_secondPage limitOffset_def)
  have "snd (getLeads exParse exEngine exStore exSecondPageReq)
      = [(''SELECT COUNT(*) as total FROM leads WHERE user_id = ?'', [JNum 1]),
         (''SELECT * FROM leads WHERE user_id = ? ORDER BY created_at DESC LIMIT ? OFFSET ?'',
          [JNum 1, JNum 1, JNum 1])]"
    unfolding getLeads_exact [OF ex_secondPage(1) q ex_noLeads(3) y]
    by (simp add: exSecondPageReq_def addConds_def conds_defs)
  with g' r' have second: "getLeads exParse exEngine exStore exSecondPageReq
       = (LeadsPage [exLeadA] (Finite 2) (Finite 1) 2 (Finite 2),
          [(''SELECT COUNT(*) as total FROM leads WHERE user_id = ?'', [JNum 1]),
           (''SELECT * FROM leads WHERE user_id = ? ORDER BY created_at DESC LIMIT ? OFFSET ?'',
            [JNum 1, JNum 1, JNum 1])])"
    by simp
  show ?thesis
    unfolding first second
    using d nb by (simp add: ex_noLeads ex_secondPage)
qed

text \<open>
  C7. For every list request that reaches the executor (page and limit valid, filters
  parsed, predicate built), exactly two statements are sent: the count query, and then
  the row query with the same predicate text, ordered by \<^verbatim>\<open>created_at\<close> descending,
  whose bound values are those of the count query followed by exactly two more, the
  limit and then the offset, as the handler computed them. A request that does not
  reach the executor (validation fails, the filters do not parse, or
  \<^verbatim>\<open>buildWhereClause\<close> throws) sends nothing.
\<close>

theorem row_query_after_count_query:
  "(validQuery req \<and> parseFilters parse req = Some filters
      \<and> buildWhereClause filters (JNum (userId req)) = Some (whereClause, params)
    \<longrightarrow> snd (getLeads parse e s req)
          = [(''SELECT COUNT(*) as total FROM leads '' @ whereClause, params),
             (''SELECT * FROM leads '' @ whereClause @ '' ORDER BY created_at DESC LIMIT ? OFFSET ?'',
              params @ [numVal (parseIntOr (limitParam req) (Finite 20)),
                        numVal (jsTimes (minusOne (parseIntOr (pageParam req) (Finite 1)))
                                  (parseIntOr (limitParam req) (Finite 20)))])])
   \<and> (\<not> validQuery req \<or> parseFilters parse req = None
        \<or> (parseFilters parse req = Some filters
             \<and> buildWhereClause filters (JNum (userId req)) = None)
      \<longrightarrow> snd (getLeads parse e s req) = [])"
proof (intro conjI impI)
  assume "validQuery req \<and> parseFilters parse req = Some filters
      \<and> buildWhereClause filters (JNum (userId req)) = Some (whereClause, params)"
  then show "snd (getLeads parse e s req)
          = [(''SELECT COUNT(*) as total FROM leads '' @ whereClause, params),
             (''SELECT * FROM leads '' @ whereClause @ '' ORDER BY created_at DESC LIMIT ? OFFSET ?'',
              params @ [numVal (parseIntOr (limitParam req) (Finite 20)),
                        numVal (jsTimes (minusOne (parseIntOr (pageParam req) (Finite 1)))
                                  (parseIntOr (limitParam req) (Finite 20)))])]"
    using getLeads_statements [of req parse filters whereClause params e s]
    by (simp add: limitOf_def offsetOf_def pageOf_def)
next
  assume "\<not> validQuery req \<or> parseFilters parse req = None
        \<or> (parseFilters parse req = Some filters
             \<and> buildWhereClause filters (JNum (userId req)) = None)"
  then show "snd (getLeads parse e s req) = []"
    by (auto simp: getLeads_def Let_def)
qed

theorem row_query_after_count_query_witness:
  "validQuery exListReq \<and> parseFilters exParse exListReq = Some (JObj [])
   \<and> buildWhereClause (JObj []) (JNum (userId exListReq)) = Some (''WHERE user_id = ?'', [JNum 1])
   \<and> snd (getLeads exParse exEngine exStore exListReq)
       = [(''SELECT COUNT(*) as total FROM leads WHERE user_id = ?'', [JNum 1]),
          (''SELECT * FROM leads WHERE user_id = ? ORDER BY created_at DESC LIMIT ? OFFSET ?'',
           [JNum 1] @ [JNum 10, JNum 0])]
   \<and> validQuery exLargePageReq \<and> parseFilters exParse exLargePageReq = Some JNull
   \<and> buildWhereClause JNull (JNum (userId exLargePageReq)) = Some (''WHERE user_id = ?'', [JNum 9])
   \<and> snd (getLeads exParse exEngine exStore exLargePageReq)
       = [(''SELECT COUNT(*) as total FROM leads WHERE user_id = ?'', [JNum 9]),
          (''SELECT * FROM leads WHERE user_id = ? ORDER BY created_at DESC LIMIT ? OFFSET ?'',
           [JNum 9] @ [JNum 10, JNum 10000000000000000000])]
   \<and> parseFilters exParse exBadJsonReq = None
   \<and> snd (getLeads exParse exEngine exStore exBadJsonReq) = []
   \<and> parseFilters exParse exThrowReq = Some exThrowFilter
   \<and> buildWhereClause exThrowFilter (JNum (userId exThrowReq)) = None
   \<and> snd (getLeads exParse exEngine exStore exThrowReq) = []"
proof -
  have n: "parseFilters exParse exBadJsonReq = None"
    by (simp add: parseFilters_def exBadJsonReq_def exParse_def exScoreText_def exThrowText_def)
  have l: "numVal (parseIntOr (limitParam exListReq) (Finite 20)) = JNum 10"
    "numVal (jsTimes (minusOne (parseIntOr (pageParam exListReq) (Finite 1)))
               (parseIntOr (limitParam exListReq) (Finite 20))) = JNum 0"
    "numVal (parseIntOr (limitParam exLargePageReq) (Finite 20)) = JNum 10"
    "numVal (jsTimes (minusOne (parseIntOr (pageParam exLargePageReq) (Finite 1)))
               (parseIntOr (limitParam exLargePageReq) (Finite 20))) = JNum 10000000000000000000"
    by (simp_all add: exListReq_def exLargePageReq_def toDouble_exact ex_doubles)
  note p = ex_largePage(2) [of exParse]
  have "snd (getLeads exParse exEngine exStore exListReq)
       = [(''SELECT COUNT(*) as total FROM leads '' @ ''WHERE user_id = ?'', [JNum 1]),
          (''SELECT * FROM leads '' @ ''WHERE user_id = ?''
             @ '' ORDER BY created_at DESC LIMIT ? OFFSET ?'',
           [JNum 1] @ [JNum 10, JNum 0])]"
    using row_query_after_count_query [where req = exListReq and parse = exParse
        and filters = "JObj []" and whereClause = "''WHERE user_id = ?''" and params = "[JNum 1]"
        and e = exEngine and s = exStore] ex_listReq(1,2,4)
    unfolding l by blast
  moreover have "snd (getLeads exParse exEngine exStore exLargePageReq)
       = [(''SELECT COUNT(*) as total FROM leads '' @ ''WHERE user_id = ?'', [JNum 9]),
          (''SELECT * FROM leads '' @ ''WHERE user_id = ?''
             @ '' ORDER BY created_at DESC LIMIT ? OFFSET ?'',
           [JNum 9] @ [JNum 10, JNum 10000000000000000000])]"
    using row_query_after_count_query [where req = exLargePageReq and parse = exParse
        and filters = JNull and whereClause = "''WHERE user_id = ?''" and params = "[JNum 9]"
        and e = exEngine and s = exStore] ex_largePage(1) p ex_largePage(6)
    unfolding l by blast
  moreover have "snd (getLeads exParse exEngine exStore exBadJsonReq) = []"
    using row_query_after_count_query [where req = exBadJsonReq and parse = exParse
        and e = exEngine and s = exStore] n
    by blast
  moreover have "snd (getLeads exParse exEngine exStore exThrowReq) = []"
    using row_query_after_count_query [where req = exThrowReq and parse = exParse
        and filters = exThrowFilter and e = exEngine and s = exStore] ex_throw(2,4)
    by blast
  ultimately show ?thesis
    using n ex_listReq(1,2,4) ex_largePage(1,6) p ex_throw(2,4) by simp
qed

text \<open>
  C9, as the claim states it, fails where the \<^verbatim>\<open>filters\<close> parameter is present and empty:
  the empty string is not JSON, yet \<^verbatim>\<open>if (req.query.filters)\<close> skips the parse, the
  request is answered with a page and both statements are sent.
\<close>

theorem empty_filters_not_rejected:
  "filtersParam exEmptyReq = Some [] \<and> exParse [] = None
   \<and> getLeads exParse exEngine exStore exEmptyReq
       = (LeadsPage [exLeadC, exLeadA] (Finite 1) (Finite 20) 2 (Finite 1),
          [(''SELECT COUNT(*) as total FROM leads WHERE user_id = ?'', [JNum 1]),
           (''SELECT * FROM leads WHERE user_id = ? ORDER BY created_at DESC LIMIT ? OFFSET ?'',
            [JNum 1, JNum 20, JNum 0])])"
proof -
  have v: "validQuery exEmptyReq"
    by (simp add: validQuery_def exEmptyReq_def)
  have f: "parseFilters exParse exEmptyReq = Some JNull"
    by (simp add: parseFilters_def exEmptyReq_def exParse_def exScoreText_def exThrowText_def)
  have "1 \<le> asked (pageParam exEmptyReq) 1" "1 \<le> asked (limitParam exEmptyReq) 20"
    "asked (pageParam exEmptyReq) 1 * asked (limitParam exEmptyReq) 20 < 2 ^ 53"
    by (simp_all add: exEmptyReq_def)
  note d = small_page_exact [OF this]
  have "getLeads exParse exEngine exStore exEmptyReq
       = (LeadsPage [exLeadC, exLeadA] (Finite 1) (Finite 20) 2 (Finite 1),
          [(''SELECT COUNT(*) as total FROM leads WHERE user_id = ?'', [JNum 1]),
           (''SELECT * FROM leads WHERE user_id = ? ORDER BY created_at DESC LIMIT ? OFFSET ?'',
            [JNum 1, JNum 20, JNum 0])])"
    unfolding getLeads_exact [OF v f ex_noLeads(3) d] ceiling_div
    by (simp add: ex_defs exEmptyReq_def conds_defs)
  then show ?thesis
    by (simp add: exEmptyReq_def exParse_def exScoreText_def exThrowText_def)
qed

text \<open>
  C9, amended. For every list request whose page and limit pass the validators and
  whose \<^verbatim>\<open>filters\<close> parameter is a non-empty string that \<^verbatim>\<open>JSON.parse\<close> rejects, the
  route answers 400 \<^verbatim>\<open>Invalid filters\<close>, which is neither the validators' response nor
  a 404 nor a 500, and sends no statement to the store. An empty \<^verbatim>\<open>filters\<close> parameter
  is answered as if the parameter were absent. A request whose page or limit fails the
  validators gets the validators' response, with no statement sent, whatever its
  \<^verbatim>\<open>filters\<close> parameter is.
\<close>

theorem invalid_filters_rejected:
  "(validQuery req \<and> filtersParam req = Some raw \<and> raw \<noteq> [] \<and> parse raw = None
      \<longrightarrow> getLeads parse e s req
            = (Failure 400 ''Invalid filters'' ''Filters must be valid JSON'', [])
          \<and> fst (getLeads parse e s req) \<noteq> ValidationError
          \<and> (\<forall>err msg. fst (getLeads parse e s req) \<noteq> Failure 404 err msg
                      \<and> fst (getLeads parse e s req) \<noteq> Failure 500 err msg))
   \<and> (filtersParam req = Some [] \<longrightarrow>
         getLeads parse e s req = getLeads parse e s (req \<lparr> filtersParam := None \<rparr>))
   \<and> (\<not> validQuery req \<longrightarrow> getLeads parse e s req = (ValidationError, []))"
  by (auto simp: getLeads_def Let_def parseFilters_def validQuery_def)

theorem invalid_filters_rejected_witness:
  "validQuery exBadJsonReq \<and> filtersParam exBadJsonReq = Some ''{bad'' \<and> exParse ''{bad'' = None
   \<and> getLeads exParse exEngine exStore exBadJsonReq
       = (Failure 400 ''Invalid filters'' ''Filters must be valid JSON'', [])
   \<and> filtersParam exEmptyReq = Some []
   \<and> getLeads exParse exEngine exStore exEmptyReq
       = getLeads exParse exEngine exStore (exEmptyReq \<lparr> filtersParam := None \<rparr>)
   \<and> \<not> validQuery exBadPageReq
   \<and> getLeads exParse exEngine exStore exBadPageReq = (ValidationError, [])"
proof -
  have h: "validQuery exBadJsonReq" "filtersParam exBadJsonReq = Some ''{bad''"
    "''{bad'' \<noteq> []" "exParse ''{bad'' = None" "filtersParam exEmptyReq = Some []"
    "\<not> validQuery exBadPageReq"
    by (simp_all add: validQuery_def exBadJsonReq_def exEmptyReq_def exBadPageReq_def exParse_def exScoreText_def exThrowText_def)
  from h invalid_filters_rejected [where req = exBadJsonReq and raw = "''{bad''"
      and parse = exParse and e = exEngine and s = exStore]
  have "getLeads exParse exEngine exStore exBadJsonReq
       = (Failure 400 ''Invalid filters'' ''Filters must be valid JSON'', [])"
    by blast
  moreover from h invalid_filters_rejected [where req = exEmptyReq
      and parse = exParse and e = exEngine and s = exStore]
  have "getLeads exParse exEngine exStore exEmptyReq
       = getLeads exParse exEngine exStore (exEmptyReq \<lparr> filtersParam := None \<rparr>)"
    by blast
  moreover from h invalid_filters_rejected [where req = exBadPageReq
      and parse = exParse and e = exEngine and s = exStore]
  have "getLeads exParse exEngine exStore exBadPageReq = (ValidationError, [])"
    by blast
  ultimately show ?thesis
    using h by blast
qed

subsection \<open>Ranges\<close>

lemma rangeFields_cases:
  "col \<in> set rangeFields \<Longrightarrow>
     col = ''score'' \<or> col = ''lead_value'' \<or> col = ''created_at'' \<or> col = ''last_activity_at''"
  by (simp add: rangeFields_def)

lemma between_fieldConds:
  assumes "col \<in> set rangeFields" "get f ''operator'' = JStr ''between''"
  shows "fieldConds col f =
     (if isArray (get f ''value'')
      then [Between col (index (get f ''value'') 0) (index (get f ''value'') 1)] else [])"
proof -
  have "truthy f"
    using assms(2) by (intro get_defined_truthy [of f "''operator''"]) simp
  with assms(2) show ?thesis
    using rangeFields_cases [OF assms(1)]
    by (elim disjE) (simp_all add: fieldConds_def numberConds_def dateConds_def)
qed

lemma between_single_entry:
  assumes "col \<in> set rangeFields" "get f ''operator'' = JStr ''between''"
  shows "buildWhereClause (JObj [(col, f)]) uid =
     Some (if isArray (get f ''value'')
           then (''WHERE user_id = ? AND '' @ col @ '' BETWEEN ? AND ?'',
                 [uid, index (get f ''value'') 0, index (get f ''value'') 1])
           else (''WHERE user_id = ?'', [uid]))"
proof -
  have "truthy f"
    using assms(2) by (intro get_defined_truthy [of f "''operator''"]) simp
  with assms(2) show ?thesis
    using rangeFields_cases [OF assms(1)]
    by (elim disjE)
       (simp_all add: buildWhereClause_conds addConds_def filterConds_def numberConds_def
          dateConds_def conds_undefined throws_def containsThrows_undefined)
qed


text \<open>
  C2, as the claim states it, fails for a \<^verbatim>\<open>between\<close> whose value is a list of another
  length than two: the test is \<^verbatim>\<open>Array.isArray\<close> alone, so a one-element list adds the
  clause and binds \<^verbatim>\<open>value[1]\<close>, which is \<^verbatim>\<open>undefined\<close>.
\<close>

theorem between_one_element_counterexample:
  "buildWhereClause
     (JObj [(''score'', JObj [(''operator'', JStr ''between''), (''value'', JArr [JNum 5])])])
     (JNum 1)
   = Some (''WHERE user_id = ? AND score BETWEEN ? AND ?'', [JNum 1, JNum 5, JUndefined])"
  by (simp add: buildWhereClause_conds addConds_def conds_defs throws_def
      containsThrows_undefined)


text \<open>
  C2, amended. For each of \<^verbatim>\<open>score\<close>, \<^verbatim>\<open>lead_value\<close>, \<^verbatim>\<open>created_at\<close> and
  \<^verbatim>\<open>last_activity_at\<close>, a \<^verbatim>\<open>between\<close> filter whose value is not a list contributes no
  condition on that field (and nothing fails); one whose value is a list, of any
  length, contributes exactly one, \<^verbatim>\<open><field> BETWEEN ? AND ?\<close> bound to \<^verbatim>\<open>value[0]\<close>
  and \<^verbatim>\<open>value[1]\<close>; and for a two-element list \<open>[lo, hi]\<close> every row the list route
  returns has the field in \<open>[lo, hi]\<close>, both ends included, in the store's ordering.
\<close>

theorem between_needs_a_list:
  assumes "col \<in> set rangeFields"
    and "get (get filters col) ''operator'' = JStr ''between''"
    and "v = get (get filters col) ''value''"
  shows "(\<not> isArray v \<longrightarrow> (\<forall>c\<in>set (filterConds filters). condColumn c \<noteq> col))
     \<and> (isArray v \<longrightarrow>
           Between col (index v 0) (index v 1) \<in> set (filterConds filters)
         \<and> (\<forall>c\<in>set (filterConds filters).
               condColumn c = col \<longrightarrow> c = Between col (index v 0) (index v 1)))
     \<and> buildWhereClause (JObj [(col, get filters col)]) uid =
          Some (if isArray v
                then (''WHERE user_id = ? AND '' @ col @ '' BETWEEN ? AND ?'',
                      [uid, index v 0, index v 1])
                else (''WHERE user_id = ?'', [uid]))
     \<and> (v = JArr [lo, hi] \<longrightarrow>
          (\<forall>rows p l t tp sent.
             parseFilters parse req = Some filters
               \<and> getLeads parse e s req = (LeadsPage rows p l t tp, sent)
             \<longrightarrow> (\<forall>r\<in>set rows. sql_le e lo (column r col) \<and> sql_le e (column r col) hi)))"
proof -
  let ?f = "get filters col"
  have fc: "fieldConds col ?f = (if isArray v then [Between col (index v 0) (index v 1)] else [])"
    unfolding assms(3) by (rule between_fieldConds [OF assms(1,2)])
  have tf: "truthy ?f"
    using assms(2) by (intro get_defined_truthy [of ?f "''operator''"]) simp
  then have t: "truthy filters"
    by (intro get_defined_truthy [of filters col]) auto
  have n: "col \<in> set fieldNames"
    using rangeFields_cases [OF assms(1)] by (auto simp: fieldNames_def)
  have only: "c = Between col (index v 0) (index v 1) \<and> isArray v"
    if "c \<in> set (filterConds filters)" "condColumn c = col" for c
  proof -
    from filterConds_column [OF that(1)] that(2) have "c \<in> set (fieldConds col ?f)"
      by simp
    then show ?thesis
      unfolding fc by (simp split: if_splits)
  qed
  have mem: "Between col (index v 0) (index v 1) \<in> set (filterConds filters)" if "isArray v"
    using that fc by (intro fieldConds_in_filterConds [OF t n]) simp
  have sem: "sql_le e lo (column r col) \<and> sql_le e (column r col) hi"
    if v: "v = JArr [lo, hi]" and p: "parseFilters parse req = Some filters"
      and g: "getLeads parse e s req = (LeadsPage rows p l t tp, sent)" and r: "r \<in> set rows"
    for rows p l t tp sent r
  proof -
    from page_rows_selected [OF g r] p have "r \<in> set (pageRows e s req filters)"
      by auto
    moreover from mem v have "Between col lo hi \<in> set (filterConds filters)"
      by simp
    ultimately have "holds e r (Between col lo hi)"
      unfolding pageRows_def
      using selectWhere_holds [of r e "tenantCond (userId req) # filterConds filters" "leads s"
          "Between col lo hi"]
      by simp
    then show ?thesis by simp
  qed
  show ?thesis
    using only mem sem between_single_entry [OF assms(1,2), of uid]
    unfolding assms(3) [symmetric] by blast
qed

lemma ex_scoreReq:
  "getLeads exParse exEngine exStore exScoreReq
     = (LeadsPage [exLeadA] (Finite 1) (Finite 20) 1 (Finite 1),
        [(''SELECT COUNT(*) as total FROM leads WHERE user_id = ? AND score BETWEEN ? AND ?'',
          [JNum 1, JNum 10, JNum 60]),
         (''SELECT * FROM leads WHERE user_id = ? AND score BETWEEN ? AND ? ORDER BY created_at DESC LIMIT ? OFFSET ?'',
          [JNum 1, JNum 10, JNum 60, JNum 20, JNum 0])])"
proof -
  have v: "validQuery exScoreReq"
    by (simp add: validQuery_def exScoreReq_def)
  have f: "parseFilters exParse exScoreReq = Some exScoreFilter"
    by (simp add: parseFilters_def exScoreReq_def exParse_def exScoreText_def exThrowText_def)
  have t: "\<not> throws exScoreFilter"
    by (simp add: throws_def exScoreFilter_def containsThrows_undefined)
  have "1 \<le> asked (pageParam exScoreReq) 1" "1 \<le> asked (limitParam exScoreReq) 20"
    "asked (pageParam exScoreReq) 1 * asked (limitParam exScoreReq) 20 < 2 ^ 53"
    by (simp_all add: exScoreReq_def)
  note d = small_page_exact [OF this]
  show ?thesis
    unfolding getLeads_exact [OF v f t d] ceiling_div
    by (simp add: ex_defs exScoreReq_def exScoreFilter_def sql_le_def)
qed


theorem between_needs_a_list_witness:
  "''score'' \<in> set rangeFields
   \<and> get (get exScoreFilter ''score'') ''operator'' = JStr ''between''
   \<and> get (get exScoreFilter ''score'') ''value'' = JArr [JNum 10, JNum 60]
   \<and> Between ''score'' (JNum 10) (JNum 60) \<in> set (filterConds exScoreFilter)
   \<and> parseFilters exParse exScoreReq = Some exScoreFilter
   \<and> getLeads exParse exEngine exStore exScoreReq
       = (LeadsPage [exLeadA] (Finite 1) (Finite 20) 1 (Finite 1),
          [(''SELECT COUNT(*) as total FROM leads WHERE user_id = ? AND score BETWEEN ? AND ?'',
            [JNum 1, JNum 10, JNum 60]),
           (''SELECT * FROM leads WHERE user_id = ? AND score BETWEEN ? AND ? ORDER BY created_at DESC LIMIT ? OFFSET ?'',
            [JNum 1, JNum 10, JNum 60, JNum 20, JNum 0])])
   \<and> column exLeadA ''score'' = JNum 40
   \<and> sql_le exEngine (JNum 10) (column exLeadA ''score'')
   \<and> sql_le exEngine (column exLeadA ''score'') (JNum 60)
   \<and> ''created_at'' \<in> set rangeFields
   \<and> get (get exDateFilter ''created_at'') ''operator'' = JStr ''between''
   \<and> \<not> isArray (get (get exDateFilter ''created_at'') ''value'')
   \<and> \<not> (\<exists>c\<in>set (filterConds exDateFilter). condColumn c = ''created_at'')
   \<and> buildWhereClause (JObj [(''created_at'', get exDateFilter ''created_at'')]) (JNum 1)
       = Some (''WHERE user_id = ?'', [JNum 1])"
proof -
  have a: "''score'' \<in> set rangeFields"
    "get (get exScoreFilter ''score'') ''operator'' = JStr ''between''"
    "JArr [JNum 10, JNum 60] = get (get exScoreFilter ''score'') ''value''"
    by (simp_all add: rangeFields_def exScoreFilter_def)
  have p: "parseFilters exParse exScoreReq = Some exScoreFilter"
    by (simp add: parseFilters_def exScoreReq_def exParse_def exScoreText_def exThrowText_def)
  have b: "''created_at'' \<in> set rangeFields"
    "get (get exDateFilter ''created_at'') ''operator'' = JStr ''between''"
    "JStr ''2024-01-01'' = get (get exDateFilter ''created_at'') ''value''"
    by (simp_all add: rangeFields_def exDateFilter_def)
  note t = between_needs_a_list [OF a, where lo = "JNum 10" and hi = "JNum 60" and parse = exParse
      and req = exScoreReq and e = exEngine and s = exStore]
  note u = between_needs_a_list [OF b, where uid = "JNum 1"]
  from t have "Between ''score'' (JNum 10) (JNum 60) \<in> set (filterConds exScoreFilter)"
    by simp
  moreover from t p ex_scoreReq
  have "\<forall>r\<in>set [exLeadA].
         sql_le exEngine (JNum 10) (column r ''score'') \<and> sql_le exEngine (column r ''score'') (JNum 60)"
    by blast
  moreover from u have "\<forall>c\<in>set (filterConds exDateFilter). condColumn c \<noteq> ''created_at''"
    "buildWhereClause (JObj [(''created_at'', get exDateFilter ''created_at'')]) (JNum 1)
       = Some (''WHERE user_id = ?'', [JNum 1])"
    by simp_all
  moreover have "\<not> isArray (get (get exDateFilter ''created_at'') ''value'')"
    by (simp add: exDateFilter_def)
  moreover have "column exLeadA ''score'' = JNum 40"
    by (simp add: column_def exLeadA_def exAttrs_def)
  ultimately show ?thesis
    using a(1,2) a(3) [symmetric] b(1,2) p ex_scoreReq by simp
qed

subsection \<open>The routes that take an id\<close>

lemma find_None: "(\<forall>x\<in>set xs. \<not> P x) \<Longrightarrow> find P xs = None"
  by (simp add: find_None_iff)

lemma filter_none: "(\<forall>x\<in>set xs. \<not> P x) \<Longrightarrow> filter P xs = []"
  by (induction xs) auto

lemma filter_all: "(\<forall>x\<in>set xs. P x) \<Longrightarrow> filter P xs = xs"
  by (induction xs) auto

lemma no_hit_get:
  assumes "\<forall>r\<in>set (leads s). \<not> hit req r"
  shows "getLead s req = (notFound, s)"
  using find_None [OF assms]
  by (simp add: getLead_def hit_def notFound_def)

lemma no_hit_delete:
  assumes "\<forall>r\<in>set (leads s). \<not> hit req r"
  shows "deleteLead s req = (notFound, s)"
  using filter_none [OF assms] filter_all [of "leads s" "\<lambda>r. \<not> hit req r"] assms
  by (simp add: deleteLead_def hit_def notFound_def Let_def)

lemma no_hit_update:
  assumes "\<forall>r\<in>set (leads s). \<not> hit req r"
  shows "updateLead e s req = (if errorsEmpty req then notFound else ValidationError, s)"
  using find_None [OF assms]
  by (simp add: updateLead_def hit_def notFound_def)

lemma absent_no_hit: "absentId s req \<Longrightarrow> \<forall>r\<in>set (leads s). \<not> hit req r"
  by (auto simp: absentId_def hit_def)

lemma foreign_no_hit: "foreignId s req \<Longrightarrow> \<forall>r\<in>set (leads s). \<not> hit req r"
  by (auto simp: foreignId_def hit_def)


text \<open>
  C6. A fetch, an update or a delete of a lead id that no lead has, and one of a lead
  id that only leads of other tenants have, get the same response, the 404
  \<^verbatim>\<open>Lead not found\<close>, and leave the store as it was. (An update whose body fails the
  validators gets the validators' 400 in both cases alike, before the id is looked at.)
\<close>

theorem absent_or_foreign_indistinguishable:
  assumes "absentId s1 req1" "foreignId s2 req2"
  shows "getLead s1 req1 = (notFound, s1) \<and> getLead s2 req2 = (notFound, s2)
       \<and> deleteLead s1 req1 = (notFound, s1) \<and> deleteLead s2 req2 = (notFound, s2)
       \<and> (errorsEmpty req1 \<longrightarrow> updateLead e s1 req1 = (notFound, s1))
       \<and> (errorsEmpty req2 \<longrightarrow> updateLead e s2 req2 = (notFound, s2))
       \<and> (errorsEmpty req1 = errorsEmpty req2
            \<longrightarrow> fst (updateLead e s1 req1) = fst (updateLead e s2 req2))
       \<and> snd (updateLead e s1 req1) = s1 \<and> snd (updateLead e s2 req2) = s2"
  using absent_no_hit [OF assms(1)] foreign_no_hit [OF assms(2)]
  by (simp add: no_hit_get no_hit_delete no_hit_update)

theorem absent_or_foreign_indistinguishable_witness:
  "absentId exStore exAbsentReq \<and> foreignId exStore exForeignReq
   \<and> errorsEmpty exAbsentReq \<and> errorsEmpty exForeignReq
   \<and> getLead exStore exAbsentReq = (notFound, exStore)
   \<and> getLead exStore exForeignReq = (notFound, exStore)
   \<and> deleteLead exStore exAbsentReq = (notFound, exStore)
   \<and> deleteLead exStore exForeignReq = (notFound, exStore)
   \<and> updateLead exEngine exStore exAbsentReq = (notFound, exStore)
   \<and> updateLead exEngine exStore exForeignReq = (notFound, exStore)
   \<and> fst (updateLead exEngine exStore exAbsentReq) = fst (updateLead exEngine exStore exForeignReq)"
proof -
  have a: "absentId exStore exAbsentReq" and f: "foreignId exStore exForeignReq"
    by (simp_all add: absentId_def foreignId_def exAbsentReq_def exForeignReq_def exStore_def
        exLeadA_def exLeadB_def exLeadC_def)
  have v: "errorsEmpty exAbsentReq" "errorsEmpty exForeignReq"
    by (simp_all add: exAbsentReq_def exForeignReq_def)
  from absent_or_foreign_indistinguishable [OF a f, of exEngine] a f v show ?thesis
    by simp
qed

subsection \<open>One lead per tenant and email\<close>

lemma fold_max_ge: "y \<in> set xs \<Longrightarrow> y \<le> fold max xs (a::int)"
proof (induction xs arbitrary: a)
  case Nil
  then show ?case by simp
next
  case (Cons x xs)
  have mono: "b \<le> fold max xs b" for b :: int
    by (induction xs arbitrary: b) (auto intro: order_trans [OF max.cobounded2])
  from Cons show ?case
  proof (cases "y = x")
    case True
    have "x \<le> max x a" by simp
    also have "\<dots> \<le> fold max xs (max x a)" by (rule mono)
    finally show ?thesis using True by simp
  next
    case False
    with Cons show ?thesis by simp
  qed
qed

lemma nextId_fresh: "r \<in> set (leads s) \<Longrightarrow> lead_id r < nextId s"
  using fold_max_ge [of "lead_id r" "map lead_id (leads s)" "seq s"]
  by (simp add: nextId_def)

lemma find_append_miss: "(\<forall>x\<in>set xs. \<not> P x) \<Longrightarrow> find P (xs @ ys) = find P ys"
  by (induction xs) auto

lemma find_Some_ex: "\<exists>x\<in>set xs. P x \<Longrightarrow> \<exists>y. find P xs = Some y"
  by (induction xs) auto

lemma create_conflict:
  assumes "errorsEmpty req" "\<exists>r\<in>set (leads s). user_id r = userId req \<and> email r = bodyEmail req"
  shows "createLead e s req
     = (Failure 409 ''Lead already exists'' ''A lead with this email already exists'', s)"
proof -
  from find_Some_ex [OF assms(2)] obtain y where
    "find (\<lambda>r. user_id r = userId req \<and> email r = bodyEmail req) (leads s) = Some y"
    by blast
  with assms(1) show ?thesis
    by (simp add: createLead_def)
qed

lemma create_success:
  assumes "errorsEmpty req"
    and "\<forall>r\<in>set (leads s). user_id r = userId req \<longrightarrow> email r \<noteq> bodyEmail req"
    and "admissible e (newLead e s req)"
  shows "createLead e s req
     = (LeadCreated (Some (newLead e s req)),
        \<lparr> leads = leads s @ [newLead e s req], seq = nextId s \<rparr>)"
proof -
  have f: "find (\<lambda>r. user_id r = userId req \<and> email r = bodyEmail req) (leads s) = None"
    using assms(2) by (intro find_None) auto
  have i: "insertLead e s (newLead e s req)
      = Some \<lparr> leads = leads s @ [newLead e s req], seq = nextId s \<rparr>"
    using assms(2,3) by (auto simp: insertLead_def list_ex_iff newLead_def)
  have "find (\<lambda>r. lead_id r = nextId s) (leads s @ [newLead e s req]) = Some (newLead e s req)"
  proof (subst find_append_miss)
    show "\<forall>x\<in>set (leads s). lead_id x \<noteq> nextId s"
      using nextId_fresh [of _ s] by fastforce
    show "find (\<lambda>r. lead_id r = nextId s) [newLead e s req] = Some (newLead e s req)"
      by (simp add: newLead_def)
  qed
  with assms(1) f i show ?thesis
    by (simp add: createLead_def)
qed

lemma insertLead_unique:
  "uniqueEmails s \<Longrightarrow> insertLead e s r = Some s' \<Longrightarrow> uniqueEmails s'"
  by (fastforce simp: insertLead_def uniqueEmails_def list_ex_iff split: if_splits)

lemma createLead_unique: "uniqueEmails s \<Longrightarrow> uniqueEmails (snd (createLead e s req))"
  by (auto simp: createLead_def dest: insertLead_unique split: option.splits)

lemma updateLeads_unique: "updateLeads e s req = Some (s', n) \<Longrightarrow> uniqueEmails s'"
  by (auto simp: updateLeads_def uniqueEmails_def Let_def split: if_splits)

lemma updateLead_unique: "uniqueEmails s \<Longrightarrow> uniqueEmails (snd (updateLead e s req))"
  by (auto simp: updateLead_def dest: updateLeads_unique split: option.splits)

lemma deleteLead_unique: "uniqueEmails s \<Longrightarrow> uniqueEmails (snd (deleteLead s req))"
  by (auto simp: deleteLead_def uniqueEmails_def Let_def distinct_map_filter)

lemma getLead_unique: "uniqueEmails s \<Longrightarrow> uniqueEmails (snd (getLead s req))"
  by (auto simp: getLead_def split: option.splits)


text \<open>
  C5. Creating a lead (with a body that passes the validators) whose email is the email
  of a lead the same tenant already has is answered 409 and leaves the store as it was.
  Creating it when no lead of the same tenant has the email succeeds, whether or not
  leads of other tenants have it, provided the row meets the other constraints of the
  table: the response is 201 with the new row, which is appended to the store. And
  every route keeps the store free of two leads with the same \<^verbatim>\<open>(user_id, email)\<close>.
\<close>

theorem duplicate_email_conflict:
  "(errorsEmpty req \<and> (\<exists>r\<in>set (leads s). user_id r = userId req \<and> email r = bodyEmail req)
      \<longrightarrow> createLead e s req
            = (Failure 409 ''Lead already exists'' ''A lead with this email already exists'', s))
   \<and> (errorsEmpty req
        \<and> (\<forall>r\<in>set (leads s). user_id r = userId req \<longrightarrow> email r \<noteq> bodyEmail req)
        \<and> admissible e (newLead e s req)
      \<longrightarrow> createLead e s req
            = (LeadCreated (Some (newLead e s req)),
               \<lparr> leads = leads s @ [newLead e s req], seq = nextId s \<rparr>)
          \<and> user_id (newLead e s req) = userId req \<and> email (newLead e s req) = bodyEmail req)
   \<and> (uniqueEmails s
      \<longrightarrow> uniqueEmails (snd (createLead e s req)) \<and> uniqueEmails (snd (updateLead e s req))
          \<and> uniqueEmails (snd (deleteLead s req)) \<and> uniqueEmails (snd (getLead s req)))"
  by (simp add: create_conflict create_success createLead_unique updateLead_unique
      deleteLead_unique getLead_unique)
     (simp add: newLead_def)


theorem duplicate_email_conflict_witness:
  "errorsEmpty exCreateSame \<and> exLeadC \<in> set (leads exStore)
   \<and> user_id exLeadC = userId exCreateSame \<and> email exLeadC = bodyEmail exCreateSame
   \<and> createLead exEngine exStore exCreateSame
       = (Failure 409 ''Lead already exists'' ''A lead with this email already exists'', exStore)
   \<and> errorsEmpty exCreateOther \<and> email exLeadC = bodyEmail exCreateOther
   \<and> user_id exLeadC \<noteq> userId exCreateOther
   \<and> admissible exEngine (newLead exEngine exStore exCreateOther)
   \<and> createLead exEngine exStore exCreateOther
       = (LeadCreated (Some (newLead exEngine exStore exCreateOther)),
          \<lparr> leads = leads exStore @ [newLead exEngine exStore exCreateOther],
            seq = nextId exStore \<rparr>)
   \<and> nextId exStore = 4
   \<and> uniqueEmails exStore
   \<and> uniqueEmails (snd (createLead exEngine exStore exCreateOther))"
proof -
  have h: "errorsEmpty exCreateSame" "exLeadC \<in> set (leads exStore)"
    "user_id exLeadC = userId exCreateSame" "email exLeadC = bodyEmail exCreateSame"
    "errorsEmpty exCreateOther" "email exLeadC = bodyEmail exCreateOther"
    "user_id exLeadC \<noteq> userId exCreateOther"
    "admissible exEngine (newLead exEngine exStore exCreateOther)"
    "nextId exStore = 4" "uniqueEmails exStore"
    by (simp_all add: exCreateSame_def exCreateOther_def exStore_def exLeadA_def exLeadB_def
        exLeadC_def exEngine_def nextId_def uniqueEmails_def)
  have o: "\<forall>r\<in>set (leads exStore).
      user_id r = userId exCreateOther \<longrightarrow> email r \<noteq> bodyEmail exCreateOther"
    by (simp add: exCreateOther_def exStore_def exLeadA_def exLeadB_def exLeadC_def)
  note t = duplicate_email_conflict [where e = exEngine and s = exStore and req = exCreateSame]
  note u = duplicate_email_conflict [where e = exEngine and s = exStore and req = exCreateOther]
  from t h(1-4) have "createLead exEngine exStore exCreateSame
       = (Failure 409 ''Lead already exists'' ''A lead with this email already exists'', exStore)"
    by blast
  moreover from u h(5,8) o have "createLead exEngine exStore exCreateOther
       = (LeadCreated (Some (newLead exEngine exStore exCreateOther)),
          \<lparr> leads = leads exStore @ [newLead exEngine exStore exCreateOther],
            seq = nextId exStore \<rparr>)"
    by blast
  moreover from u h(10) have "uniqueEmails (snd (createLead exEngine exStore exCreateOther))"
    by blast
  ultimately show ?thesis
    using h by blast
qed

end
